theory Spec2Isabelle
  imports Main "HOL-Library.AList"
begin

section \<open>Instants, dates and the weekly bucket key\<close>

text \<open>
  The bot only handles aware datetimes (\<^verbatim>\<open>datetime.now(timezone.utc)\<close>). An aware
  datetime is its wall-clock reading together with the offset of its zone, both counted
  in microseconds; the wall clock counts from 1970-01-01T00:00:00 of that zone. A
  \<^verbatim>\<open>date\<close> is its proleptic Gregorian day number, day 0 being 1970-01-01 (a
  Thursday, so \<^verbatim>\<open>weekday()\<close> is \<open>(d + 3) mod 7\<close> with Monday as 0); a
  \<^verbatim>\<open>timedelta\<close> is a number of microseconds. \<^verbatim>\<open>date.isoformat()\<close> is
  injective, so the TEXT column \<^verbatim>\<open>week_start\<close> is keyed by the date itself. The
  range limits of Python's datetime (years 1 to 9999) are outside the model.
\<close>

record datetime =
  dt_local :: int
  dt_offset :: int

type_synonym date = int
type_synonym timedelta = int

definition us_per_second :: int where
  "us_per_second = 1000000"

definition us_per_day :: int where
  "us_per_day = 86400000000"

definition utc_instant :: "datetime \<Rightarrow> int" where
  "utc_instant dt = dt_local dt - dt_offset dt"

definition astimezone_utc :: "datetime \<Rightarrow> datetime" where
  "astimezone_utc dt = \<lparr>dt_local = dt_local dt - dt_offset dt, dt_offset = 0\<rparr>"

definition dt_weekday :: "datetime \<Rightarrow> int" where
  "dt_weekday dt = (dt_local dt div us_per_day + 3) mod 7"

definition dt_minus_days :: "datetime \<Rightarrow> int \<Rightarrow> datetime" where
  "dt_minus_days dt n = dt\<lparr>dt_local := dt_local dt - n * us_per_day\<rparr>"

definition dt_date :: "datetime \<Rightarrow> date" where
  "dt_date dt = dt_local dt div us_per_day"

definition date_weekday :: "date \<Rightarrow> int" where
  "date_weekday d = (d + 3) mod 7"

text \<open>
  \<^verbatim>\<open>def week_start_utc(dt): dt_utc = dt.astimezone(timezone.utc);
  return (dt_utc - timedelta(days=dt_utc.weekday())).date()\<close>
\<close>

definition week_start_utc :: "datetime \<Rightarrow> date" where
  "week_start_utc dt =
     (let dt_utc = astimezone_utc dt
      in dt_date (dt_minus_days dt_utc (dt_weekday dt_utc)))"

text \<open>
  Subtracting two aware datetimes compares them in UTC. \<^verbatim>\<open>int(td.total_seconds())\<close>
  truncates towards zero; the float that \<^verbatim>\<open>total_seconds()\<close> returns is close enough
  to the exact quotient for the truncation to be exact whenever the difference is below
  \<open>2 ^ 34\<close> seconds (some 540 years), which is the range modelled here.
\<close>

definition dt_sub :: "datetime \<Rightarrow> datetime \<Rightarrow> timedelta" where
  "dt_sub a b = utc_instant a - utc_instant b"

definition int_total_seconds :: "timedelta \<Rightarrow> int" where
  "int_total_seconds td =
     (if 0 \<le> td then td div us_per_second else - ((- td) div us_per_second))"

section \<open>The durable store\<close>

text \<open>
  Each SQLite table is the list of its rows, keyed by its primary key. The statements
  of \<^verbatim>\<open>StudyStore\<close> are modelled by their effect on the tables; a statement that
  fails inside SQLite is outside the model.
\<close>

record session_row =
  sr_id :: nat
  sr_guild_id :: nat
  sr_voice_channel_id :: nat
  sr_started_at :: datetime
  sr_ended_at :: "datetime option"
  sr_duration_seconds :: "int option"

record StudyStore =
  study_time :: "((nat \<times> nat) \<times> int) list"
  weekly_study_time :: "((nat \<times> nat \<times> date) \<times> int) list"
  session_history :: "session_row list"
  guild_config :: "(nat \<times> nat option \<times> nat option) list"

text \<open>
  \<^verbatim>\<open>INSERT ... ON CONFLICT(key) DO UPDATE SET total_seconds = total_seconds +
  excluded.total_seconds\<close>
\<close>

definition upsert_add :: "'k \<Rightarrow> int \<Rightarrow> ('k \<times> int) list \<Rightarrow> ('k \<times> int) list" where
  "upsert_add k v tbl =
     (case map_of tbl k of
        None \<Rightarrow> tbl @ [(k, v)]
      | Some old \<Rightarrow> AList.update k (old + v) tbl)"

definition upsert_guild_config :: "StudyStore \<Rightarrow> nat \<Rightarrow> nat \<Rightarrow> nat \<Rightarrow> StudyStore" where
  "upsert_guild_config db gid study_voice_channel_id study_category_id =
     db\<lparr>guild_config :=
          AList.update gid (Some study_voice_channel_id, Some study_category_id)
            (guild_config db)\<rparr>"

definition get_guild_config :: "StudyStore \<Rightarrow> nat \<Rightarrow> nat option \<times> nat option" where
  "get_guild_config db gid =
     (case map_of (guild_config db) gid of
        None \<Rightarrow> (None, None)
      | Some row \<Rightarrow> (fst row, snd row))"

text \<open>
  \<^verbatim>\<open>id INTEGER PRIMARY KEY AUTOINCREMENT\<close>: rows of \<^verbatim>\<open>session_history\<close> are never
  deleted, so the next id is one more than the largest id in the table.
\<close>

definition create_session_record :: "StudyStore \<Rightarrow> nat \<Rightarrow> nat \<Rightarrow> datetime \<Rightarrow> nat \<times> StudyStore" where
  "create_session_record db gid vcid started =
     (let lastrowid = Suc (fold max (map sr_id (session_history db)) 0)
      in (lastrowid,
          db\<lparr>session_history := session_history db @
               [\<lparr>sr_id = lastrowid, sr_guild_id = gid, sr_voice_channel_id = vcid,
                 sr_started_at = started, sr_ended_at = None,
                 sr_duration_seconds = None\<rparr>]\<rparr>))"

definition close_session_record :: "StudyStore \<Rightarrow> nat \<Rightarrow> datetime \<Rightarrow> int \<Rightarrow> StudyStore" where
  "close_session_record db session_id ended duration =
     db\<lparr>session_history :=
          map (\<lambda>r. if sr_id r = session_id
                    then r\<lparr>sr_ended_at := Some ended, sr_duration_seconds := Some duration\<rparr>
                    else r)
            (session_history db)\<rparr>"

definition add_study_seconds :: "StudyStore \<Rightarrow> nat \<Rightarrow> nat \<Rightarrow> int \<Rightarrow> datetime \<Rightarrow> StudyStore" where
  "add_study_seconds db gid uid seconds at_time =
     (if seconds \<le> 0 then db
      else let start_of_week = week_start_utc at_time
           in db\<lparr>study_time := upsert_add (gid, uid) seconds (study_time db),
                  weekly_study_time :=
                    upsert_add (gid, uid, start_of_week) seconds (weekly_study_time db)\<rparr>)"

definition weekly_row_matches :: "nat \<Rightarrow> date \<Rightarrow> (nat \<times> nat \<times> date) \<times> int \<Rightarrow> bool" where
  "weekly_row_matches gid week_start row =
     (fst (fst row) = gid \<and> snd (snd (fst row)) = week_start)"

text \<open>
  \<^verbatim>\<open>DELETE FROM weekly_study_time WHERE guild_id = ? AND week_start = ?\<close>, returning
  \<^verbatim>\<open>cursor.rowcount\<close>, the number of rows deleted.
\<close>

definition reset_weekly_data :: "StudyStore \<Rightarrow> nat \<Rightarrow> date \<Rightarrow> nat \<times> StudyStore" where
  "reset_weekly_data db gid week_start =
     (length (filter (weekly_row_matches gid week_start) (weekly_study_time db)),
      db\<lparr>weekly_study_time :=
           filter (\<lambda>row. \<not> weekly_row_matches gid week_start row) (weekly_study_time db)\<rparr>)"

definition get_user_seconds :: "StudyStore \<Rightarrow> nat \<Rightarrow> nat \<Rightarrow> int" where
  "get_user_seconds db gid uid =
     (case map_of (study_time db) (gid, uid) of Some t \<Rightarrow> t | None \<Rightarrow> 0)"

text \<open>
  The weekly total of one user in one bucket, read as \<^verbatim>\<open>get_user_seconds\<close> reads the
  all-time total (\<^verbatim>\<open>get_weekly_top_users\<close> selects the same column).
\<close>

definition get_weekly_seconds :: "StudyStore \<Rightarrow> nat \<Rightarrow> nat \<Rightarrow> date \<Rightarrow> int" where
  "get_weekly_seconds db gid uid week_start =
     (case map_of (weekly_study_time db) (gid, uid, week_start) of Some t \<Rightarrow> t | None \<Rightarrow> 0)"


section \<open>The chat platform as the bot sees it\<close>

text \<open>
  A member carries the fields the bot reads: \<^verbatim>\<open>member.id\<close>, \<^verbatim>\<open>member.bot\<close> and
  \<^verbatim>\<open>member.voice\<close>, which is \<open>None\<close> when the member has no voice state and
  \<open>Some mute\<close> otherwise (\<^verbatim>\<open>member.voice.mute\<close>). A guild is its id and its
  channel cache; \<^verbatim>\<open>guild.get_channel\<close> finds a channel by id. Voice and text
  channels are \<^verbatim>\<open>discord.abc.Messageable\<close>, categories are not.
\<close>

record member =
  m_id :: nat
  m_bot :: bool
  m_voice :: "bool option"

datatype channel =
    VoiceChannel nat "member list"
  | TextChannel nat
  | CategoryChannel nat string

fun channel_id :: "channel \<Rightarrow> nat" where
  "channel_id (VoiceChannel cid ms) = cid"
| "channel_id (TextChannel cid) = cid"
| "channel_id (CategoryChannel cid name) = cid"

fun is_messageable :: "channel \<Rightarrow> bool" where
  "is_messageable (VoiceChannel cid ms) = True"
| "is_messageable (TextChannel cid) = True"
| "is_messageable (CategoryChannel cid name) = False"

record guild =
  g_id :: nat
  g_channels :: "channel list"

definition get_channel :: "guild \<Rightarrow> nat \<Rightarrow> channel option" where
  "get_channel g cid = find (\<lambda>c. channel_id c = cid) (g_channels g)"

text \<open>
  The exceptions the source distinguishes: \<^verbatim>\<open>discord.Forbidden\<close>, any other
  \<^verbatim>\<open>Exception\<close> of the platform (\<^verbatim>\<open>discord.HTTPException\<close>), \<^verbatim>\<open>KeyError\<close>
  from a missing dictionary key, and \<^verbatim>\<open>asyncio.CancelledError\<close>, which derives from
  \<^verbatim>\<open>BaseException\<close> and so is not caught by \<^verbatim>\<open>except Exception\<close>.
\<close>

datatype exn = Forbidden | HTTPException | KeyError | CancelledError

definition is_Exception :: "exn \<Rightarrow> bool" where
  "is_Exception e = (e \<noteq> CancelledError)"

datatype task = EnforceMuteTask nat | PomodoroTask nat

text \<open>\<^verbatim>\<open>divmod\<close> twice; the f-string prints the three numbers.\<close>

definition fmt_duration :: "int \<Rightarrow> int \<times> int \<times> int" where
  "fmt_duration seconds =
     (let hours = seconds div 3600; rem = seconds mod 3600;
          minutes = rem div 60; secs = rem mod 60
      in (hours, minutes, secs))"

text \<open>
  The messages of the Pomodoro scheduler, by template and arguments: the focus
  announcement (cycle, cycles, work minutes), the break announcement (break minutes), and
  the two final announcements with the formatted duration.
\<close>

datatype message =
    FocusMessage int int int
  | BreakMessage int
  | FinishedMessage "int \<times> int \<times> int"
  | StoppedMessage "int \<times> int \<times> int"

text \<open>
  The calls a function makes to the outside are logged in order: \<^verbatim>\<open>member.edit\<close>
  (member, mute, reason), \<^verbatim>\<open>text_channel.send\<close>, \<^verbatim>\<open>asyncio.sleep\<close>,
  \<^verbatim>\<open>asyncio.create_task\<close>, \<^verbatim>\<open>task.cancel\<close> and
  \<^verbatim>\<open>store.close_session_record\<close>. An event records the call; whether the call
  raised is in the result of the function.
\<close>

datatype event =
    EvEdit nat bool string
  | EvSend message
  | EvSleep int
  | EvCreateTask task
  | EvCancelTask task
  | EvCloseRecord nat

section \<open>The state of the bot\<close>

record ActiveSession =
  guild_id :: nat
  voice_channel_id :: nat
  started_at :: datetime
  enforce_mute_task :: "task option"

record PomodoroState =
  ps_task :: task
  ps_text_channel_id :: nat
  ps_work_minutes :: int
  ps_break_minutes :: int
  ps_cycles :: int

text \<open>
  The dictionaries of \<^verbatim>\<open>StudyBot\<close>, keyed by guild id. The presence ledger of a
  guild is a dictionary that the code iterates, so it keeps its insertion order.
\<close>

record bot =
  store :: StudyStore
  active_sessions :: "nat \<rightharpoonup> ActiveSession"
  active_session_record_id :: "nat \<rightharpoonup> nat"
  enforced_user_ids :: "nat \<rightharpoonup> nat set"
  session_joined_at :: "nat \<rightharpoonup> (nat \<times> datetime) list"
  focus_mode_active :: "nat \<rightharpoonup> bool"
  pomodoro_states :: "nat \<rightharpoonup> PomodoroState"

text \<open>
  The tables after \<^verbatim>\<open>StudyStore.setup\<close> on a new database, and the bot after
  \<^verbatim>\<open>StudyBot.__init__\<close>.
\<close>

definition empty_store :: StudyStore where
  "empty_store =
     \<lparr>study_time = [], weekly_study_time = [], session_history = [], guild_config = []\<rparr>"

definition initial_bot :: bot where
  "initial_bot =
     \<lparr>store = empty_store, active_sessions = Map.empty,
      active_session_record_id = Map.empty, enforced_user_ids = Map.empty,
      session_joined_at = Map.empty, focus_mode_active = Map.empty,
      pomodoro_states = Map.empty\<rparr>"

type_synonym platform_edit = "nat \<Rightarrow> bool \<Rightarrow> exn option"

type_synonym outcome = "exn option \<times> bot \<times> event list"

text \<open>
  Sequencing of two awaited steps: an exception of the first skips the second, and the
  logs are concatenated.
\<close>

definition then_do :: "outcome \<Rightarrow> (bot \<Rightarrow> outcome) \<Rightarrow> outcome" where
  "then_do r f =
     (case r of
        (Some e, b, ev) \<Rightarrow> (Some e, b, ev)
      | (None, b, ev) \<Rightarrow> (case f b of (r', b', ev') \<Rightarrow> (r', b', ev @ ev')))"

section \<open>Time accrual\<close>

text \<open>\<^verbatim>\<open>bot.session_joined_at.get(guild_id, {}).get(user_id)\<close>\<close>

definition joined_at_of :: "bot \<Rightarrow> nat \<Rightarrow> nat \<Rightarrow> datetime option" where
  "joined_at_of b gid uid =
     (case session_joined_at b gid of None \<Rightarrow> None | Some ledger \<Rightarrow> map_of ledger uid)"

text \<open>
  \<^verbatim>\<open>joined_at = bot.session_joined_at.get(guild_id, {}).pop(user_id, None)\<close>: without
  a ledger for the guild the pop acts on a temporary dictionary.
\<close>

definition accrue_user_time :: "nat \<Rightarrow> nat \<Rightarrow> datetime \<Rightarrow> bot \<Rightarrow> bot" where
  "accrue_user_time gid uid now b =
     (let joined_at = joined_at_of b gid uid;
          b1 = (case session_joined_at b gid of
                  None \<Rightarrow> b
                | Some ledger \<Rightarrow>
                    b\<lparr>session_joined_at := (session_joined_at b)(gid \<mapsto> AList.delete uid ledger)\<rparr>)
      in case joined_at of
           None \<Rightarrow> b1
         | Some j \<Rightarrow>
             (let elapsed = int_total_seconds (dt_sub now j)
              in b1\<lparr>store := add_study_seconds (store b1) gid uid elapsed now\<rparr>))"

text \<open>
  \<^verbatim>\<open>for user_id in list(bot.session_joined_at.get(guild.id, {}).keys()):
  await accrue_user_time(guild.id, user_id, now)\<close>
\<close>

definition ledger_keys :: "bot \<Rightarrow> nat \<Rightarrow> nat list" where
  "ledger_keys b gid =
     (case session_joined_at b gid of None \<Rightarrow> [] | Some ledger \<Rightarrow> map fst ledger)"

definition accrue_users :: "nat \<Rightarrow> nat list \<Rightarrow> datetime \<Rightarrow> bot \<Rightarrow> bot" where
  "accrue_users gid uids now b = fold (\<lambda>uid. accrue_user_time gid uid now) uids b"

section \<open>Focus mode\<close>

text \<open>\<^verbatim>\<open>{member.id: now for member in channel.members if not member.bot}\<close>\<close>

definition seed_ledger :: "datetime \<Rightarrow> member list \<Rightarrow> (nat \<times> datetime) list" where
  "seed_ledger now ms =
     foldl (\<lambda>d m. AList.update (m_id m) now d) [] (filter (\<lambda>m. \<not> m_bot m) ms)"

text \<open>\<^verbatim>\<open>bot.enforced_user_ids.get(guild.id, set())\<close>\<close>

definition enforced_of :: "bot \<Rightarrow> nat \<Rightarrow> nat set" where
  "enforced_of b gid = (case enforced_user_ids b gid of None \<Rightarrow> {} | Some s \<Rightarrow> s)"

text \<open>\<^verbatim>\<open>bot.enforced_user_ids.setdefault(guild.id, set()).add(member.id)\<close>\<close>

definition add_enforced :: "nat \<Rightarrow> nat \<Rightarrow> bot \<Rightarrow> bot" where
  "add_enforced gid uid b =
     b\<lparr>enforced_user_ids := (enforced_user_ids b)(gid \<mapsto> insert uid (enforced_of b gid))\<rparr>"

text \<open>
  The muting loop of \<^verbatim>\<open>set_focus_mode(guild, True)\<close>: the \<^verbatim>\<open>try\<close> is around the
  one \<^verbatim>\<open>member.edit\<close>, and \<^verbatim>\<open>discord.Forbidden\<close> is passed over.
\<close>

fun focus_mute_members :: "nat \<Rightarrow> platform_edit \<Rightarrow> member list \<Rightarrow> bot \<Rightarrow> outcome" where
  "focus_mute_members gid edit [] b = (None, b, [])"
| "focus_mute_members gid edit (m # ms) b =
     (if m_bot m \<or> m_voice m = None \<or> m_voice m = Some True
      then focus_mute_members gid edit ms b
      else (case edit (m_id m) True of
              None \<Rightarrow>
                (case focus_mute_members gid edit ms (add_enforced gid (m_id m) b) of
                   (r, b', ev) \<Rightarrow>
                     (r, b', EvEdit (m_id m) True ''Pomodoro focus mode started'' # ev))
            | Some e \<Rightarrow>
                if e = Forbidden
                then (case focus_mute_members gid edit ms b of
                        (r, b', ev) \<Rightarrow>
                          (r, b', EvEdit (m_id m) True ''Pomodoro focus mode started'' # ev))
                else (Some e, b, [EvEdit (m_id m) True ''Pomodoro focus mode started''])))"

text \<open>
  One member of the unmuting loops of \<^verbatim>\<open>set_focus_mode(guild, False)\<close> and of
  \<^verbatim>\<open>stop_session\<close>, which differ in the reason only: bots are skipped, a member is
  unmuted when the bot muted it and it is still muted, and \<^verbatim>\<open>discord.Forbidden\<close> is
  passed over. The result is the exception that leaves the loop, if any.
\<close>

definition unmute_member :: "nat \<Rightarrow> string \<Rightarrow> platform_edit \<Rightarrow> member \<Rightarrow> bot \<Rightarrow> exn option \<times> event list" where
  "unmute_member gid reason edit m b =
     (if m_bot m then (None, [])
      else if m_id m \<in> enforced_of b gid \<and> m_voice m = Some True
      then (case edit (m_id m) False of
              None \<Rightarrow> (None, [EvEdit (m_id m) False reason])
            | Some e \<Rightarrow>
                if e = Forbidden then (None, [EvEdit (m_id m) False reason])
                else (Some e, [EvEdit (m_id m) False reason]))
      else (None, []))"

fun unmute_members :: "nat \<Rightarrow> string \<Rightarrow> platform_edit \<Rightarrow> member list \<Rightarrow> bot \<Rightarrow> outcome" where
  "unmute_members gid reason edit [] b = (None, b, [])"
| "unmute_members gid reason edit (m # ms) b =
     (case unmute_member gid reason edit m b of
        (Some e, ev) \<Rightarrow> (Some e, b, ev)
      | (None, ev) \<Rightarrow>
          (case unmute_members gid reason edit ms b of (r, b', ev') \<Rightarrow> (r, b', ev @ ev')))"

definition set_focus_mode :: "guild \<Rightarrow> bool \<Rightarrow> datetime \<Rightarrow> platform_edit \<Rightarrow> bot \<Rightarrow> outcome" where
  "set_focus_mode g enabled now edit b =
     (case active_sessions b (g_id g) of
        None \<Rightarrow> (None, b, [])
      | Some session \<Rightarrow>
          (case get_channel g (voice_channel_id session) of
             Some (VoiceChannel cid ms) \<Rightarrow>
               (let b1 = b\<lparr>focus_mode_active := (focus_mode_active b)(g_id g \<mapsto> enabled)\<rparr>
                in if enabled
                   then focus_mute_members (g_id g) edit ms
                          (b1\<lparr>session_joined_at :=
                                (session_joined_at b1)(g_id g \<mapsto> seed_ledger now ms)\<rparr>)
                   else unmute_members (g_id g) ''Pomodoro break started'' edit ms
                          (accrue_users (g_id g) (ledger_keys b1 (g_id g)) now b1))
           | _ \<Rightarrow> (None, b, [])))"

section \<open>Starting a session\<close>

definition DEFAULT_CATEGORY_NAME :: string where
  "DEFAULT_CATEGORY_NAME = ''Study Sessions''"

text \<open>
  The ids the platform gives to a category and to a voice channel if the bot creates
  them. \<^verbatim>\<open>guild.categories\<close> is read in the order of the channel cache.
\<close>

record provision =
  new_category_id :: nat
  new_voice_channel_id :: nat

fun is_category_named :: "string \<Rightarrow> channel \<Rightarrow> bool" where
  "is_category_named name (CategoryChannel cid n) = (n = name)"
| "is_category_named name (VoiceChannel cid ms) = False"
| "is_category_named name (TextChannel cid) = False"

text \<open>\<^verbatim>\<open>guild.get_channel(channel_id) if channel_id else None\<close>: 0 is falsy.\<close>

definition get_channel_if :: "guild \<Rightarrow> nat option \<Rightarrow> channel option" where
  "get_channel_if g cid_opt =
     (case cid_opt of
        None \<Rightarrow> None
      | Some cid \<Rightarrow> if cid = 0 then None else get_channel g cid)"

definition ensure_study_channel :: "guild \<Rightarrow> provision \<Rightarrow> StudyStore \<Rightarrow> channel \<times> StudyStore" where
  "ensure_study_channel g prov db =
     (let cfg = get_guild_config db (g_id g)
      in case get_channel_if g (fst cfg) of
           Some (VoiceChannel cid ms) \<Rightarrow> (VoiceChannel cid ms, db)
         | _ \<Rightarrow>
             (let category_id =
                    (case get_channel_if g (snd cfg) of
                       Some (CategoryChannel k n) \<Rightarrow> k
                     | _ \<Rightarrow>
                         (case find (is_category_named DEFAULT_CATEGORY_NAME) (g_channels g) of
                            Some c \<Rightarrow> channel_id c
                          | None \<Rightarrow> new_category_id prov))
              in (VoiceChannel (new_voice_channel_id prov) [],
                  upsert_guild_config db (g_id g) (new_voice_channel_id prov) category_id)))"

fun voice_members :: "channel \<Rightarrow> member list" where
  "voice_members (VoiceChannel cid ms) = ms"
| "voice_members (TextChannel cid) = []"
| "voice_members (CategoryChannel cid name) = []"

text \<open>
  \<^verbatim>\<open>channel if isinstance(channel, discord.VoiceChannel) else None\<close>, on the result
  of \<^verbatim>\<open>guild.get_channel\<close>.
\<close>

fun voice_channel_or_none :: "channel option \<Rightarrow> channel option" where
  "voice_channel_or_none (Some (VoiceChannel cid ms)) = Some (VoiceChannel cid ms)"
| "voice_channel_or_none (Some (TextChannel cid)) = None"
| "voice_channel_or_none (Some (CategoryChannel cid name)) = None"
| "voice_channel_or_none None = None"

text \<open>
  \<^verbatim>\<open>start_session\<close> returns \<^verbatim>\<open>(started, channel)\<close>. The session object stays in
  the registry while its \<^verbatim>\<open>enforce_mute_task\<close> is assigned, so the assignment
  updates the registry entry.
\<close>

definition start_session :: "guild \<Rightarrow> datetime \<Rightarrow> provision \<Rightarrow> bot \<Rightarrow> (bool \<times> channel option) \<times> bot \<times> event list" where
  "start_session g now prov b =
     (case active_sessions b (g_id g) of
        Some existing \<Rightarrow>
          ((False, voice_channel_or_none (get_channel g (voice_channel_id existing))), b, [])
      | None \<Rightarrow>
          (let ensured = ensure_study_channel g prov (store b);
               channel = fst ensured;
               started = now;
               session = \<lparr>guild_id = g_id g, voice_channel_id = channel_id channel,
                          started_at = started, enforce_mute_task = None\<rparr>;
               b1 = b\<lparr>store := snd ensured,
                      active_sessions := (active_sessions b)(g_id g \<mapsto> session),
                      focus_mode_active := (focus_mode_active b)(g_id g \<mapsto> True),
                      session_joined_at :=
                        (session_joined_at b)(g_id g \<mapsto> seed_ledger started (voice_members channel))\<rparr>;
               created = create_session_record (store b1) (g_id g) (channel_id channel) started;
               b2 = b1\<lparr>store := snd created,
                       active_session_record_id :=
                         (active_session_record_id b1)(g_id g \<mapsto> fst created)\<rparr>;
               t = EnforceMuteTask (g_id g);
               b3 = b2\<lparr>active_sessions :=
                         (active_sessions b2)(g_id g \<mapsto> session\<lparr>enforce_mute_task := Some t\<rparr>)\<rparr>
           in ((True, Some channel), b3, [EvCreateTask t])))"


section \<open>Stopping a session\<close>

text \<open>
  \<^verbatim>\<open>stop_session\<close> is a coroutine: between two of its awaits other tasks of the
  event loop may run. It is modelled as a machine whose steps are the stretches of code
  that run without suspension; a control point holds the local variables
  (\<^verbatim>\<open>session\<close>, \<^verbatim>\<open>ended_at\<close>, \<^verbatim>\<open>duration_seconds\<close>) and the rest of the
  list being iterated. A boundary between two steps is where another task may run
  (every await of the source is such a boundary; the machine has a few more, which only
  adds schedules).

  \<^item> \<open>StopEntry\<close>: the call has not run yet. Its first step pops the registry entry,
    returns \<open>None\<close> without one, and otherwise reads the clock and the ledger keys.
  \<^item> \<open>StopAccrue\<close>: the accrual loop over the ledger keys, then the channel lookup.
  \<^item> \<open>StopUnmute\<close>: the loop over the channel's members; when it is over, the three
    \<^verbatim>\<open>pop\<close>s, \<^verbatim>\<open>task.cancel()\<close>, the pop of the record id and
    \<^verbatim>\<open>close_session_record\<close>.
  \<^item> \<open>StopDone\<close>: the call returned (\<open>Inr\<close>) or raised (\<open>Inl\<close>).
\<close>

datatype stop_pc =
    StopEntry
  | StopAccrue ActiveSession datetime int "nat list"
  | StopUnmute ActiveSession datetime int "member list"
  | StopDone "exn + int option"

fun stop_step :: "guild \<Rightarrow> string \<Rightarrow> datetime \<Rightarrow> platform_edit \<Rightarrow> stop_pc \<Rightarrow> bot \<Rightarrow> stop_pc \<times> bot \<times> event list" where
  "stop_step g reason now edit StopEntry b =
     (case active_sessions b (g_id g) of
        None \<Rightarrow> (StopDone (Inr None), b, [])
      | Some session \<Rightarrow>
          (let b1 = b\<lparr>active_sessions := (active_sessions b)(g_id g := None)\<rparr>;
               ended_at = now;
               duration_seconds = int_total_seconds (dt_sub ended_at (started_at session))
           in (StopAccrue session ended_at duration_seconds (ledger_keys b1 (g_id g)), b1, [])))"
| "stop_step g reason now edit (StopAccrue session ended_at d (uid # uids)) b =
     (StopAccrue session ended_at d uids, accrue_user_time (g_id g) uid ended_at b, [])"
| "stop_step g reason now edit (StopAccrue session ended_at d []) b =
     (case get_channel g (voice_channel_id session) of
        Some (VoiceChannel cid ms) \<Rightarrow> (StopUnmute session ended_at d ms, b, [])
      | _ \<Rightarrow> (StopUnmute session ended_at d [], b, []))"
| "stop_step g reason now edit (StopUnmute session ended_at d (m # ms)) b =
     (case unmute_member (g_id g) reason edit m b of
        (Some e, ev) \<Rightarrow> (StopDone (Inl e), b, ev)
      | (None, ev) \<Rightarrow> (StopUnmute session ended_at d ms, b, ev))"
| "stop_step g reason now edit (StopUnmute session ended_at d []) b =
     (let b1 = b\<lparr>enforced_user_ids := (enforced_user_ids b)(g_id g := None),
                  session_joined_at := (session_joined_at b)(g_id g := None),
                  focus_mode_active := (focus_mode_active b)(g_id g := None)\<rparr>;
          cancelled = (case enforce_mute_task session of
                         None \<Rightarrow> []
                       | Some t \<Rightarrow> [EvCancelTask t]);
          session_id = active_session_record_id b1 (g_id g);
          b2 = b1\<lparr>active_session_record_id := (active_session_record_id b1)(g_id g := None)\<rparr>
      in case session_id of
           None \<Rightarrow> (StopDone (Inr (Some d)), b2, cancelled)
         | Some sid \<Rightarrow>
             (StopDone (Inr (Some d)),
              b2\<lparr>store := close_session_record (store b2) sid ended_at d\<rparr>,
              cancelled @ [EvCloseRecord sid]))"
| "stop_step g reason now edit (StopDone r) b = (StopDone r, b, [])"

fun pc_phase :: "stop_pc \<Rightarrow> nat" where
  "pc_phase StopEntry = 3"
| "pc_phase (StopAccrue session ended_at d uids) = 2"
| "pc_phase (StopUnmute session ended_at d ms) = 1"
| "pc_phase (StopDone r) = 0"

fun pc_todo :: "stop_pc \<Rightarrow> nat" where
  "pc_todo StopEntry = 0"
| "pc_todo (StopAccrue session ended_at d uids) = Suc (length uids)"
| "pc_todo (StopUnmute session ended_at d ms) = Suc (length ms)"
| "pc_todo (StopDone r) = 0"

lemma stop_step_decreases:
  assumes "stop_step g reason now edit pc b = (pc', b', ev)"
    and "pc_phase pc \<noteq> 0"
  shows "pc_phase pc' < pc_phase pc
         \<or> (pc_phase pc' = pc_phase pc \<and> pc_todo pc' < pc_todo pc)"
proof (cases pc)
  case StopEntry
  with assms show ?thesis by (auto simp: Let_def split: option.splits)
next
  case (StopAccrue session ended_at d uids)
  with assms show ?thesis
    by (cases uids) (auto split: option.splits channel.splits)
next
  case (StopUnmute session ended_at d ms)
  with assms show ?thesis
    by (cases ms) (auto simp: Let_def split: option.splits prod.splits)
next
  case (StopDone r)
  with assms(2) show ?thesis by simp
qed

text \<open>A call that no other task interleaves with: the steps in a row, up to the return.\<close>

function run_stop :: "guild \<Rightarrow> string \<Rightarrow> datetime \<Rightarrow> platform_edit \<Rightarrow> stop_pc \<Rightarrow> bot \<Rightarrow> (exn + int option) \<times> bot \<times> event list" where
  "run_stop g reason now edit (StopDone r) b = (r, b, [])"
| "run_stop g reason now edit StopEntry b =
     (case stop_step g reason now edit StopEntry b of
        (pc', b', ev) \<Rightarrow>
          (case run_stop g reason now edit pc' b' of (r, b'', ev') \<Rightarrow> (r, b'', ev @ ev')))"
| "run_stop g reason now edit (StopAccrue session ended_at d uids) b =
     (case stop_step g reason now edit (StopAccrue session ended_at d uids) b of
        (pc', b', ev) \<Rightarrow>
          (case run_stop g reason now edit pc' b' of (r, b'', ev') \<Rightarrow> (r, b'', ev @ ev')))"
| "run_stop g reason now edit (StopUnmute session ended_at d ms) b =
     (case stop_step g reason now edit (StopUnmute session ended_at d ms) b of
        (pc', b', ev) \<Rightarrow>
          (case run_stop g reason now edit pc' b' of (r, b'', ev') \<Rightarrow> (r, b'', ev @ ev')))"
  by pat_completeness auto
termination
proof (relation "measures [\<lambda>(g, reason, now, edit, pc, b). pc_phase pc,
                           \<lambda>(g, reason, now, edit, pc, b). pc_todo pc]")
  show "wf (measures [\<lambda>(g, reason, now, edit, pc, b). pc_phase pc,
                      \<lambda>(g, reason, now, edit, pc, b). pc_todo pc])"
    by simp
next
  fix g reason now edit b x y xa ya
  assume "(x, y) = stop_step g reason now edit StopEntry b" "(xa, ya) = y"
  then have "stop_step g reason now edit StopEntry b = (x, xa, ya)" by simp
  from stop_step_decreases [OF this]
  show "((g, reason, now, edit, x, xa), g, reason, now, edit, StopEntry, b)
        \<in> measures [\<lambda>(g, reason, now, edit, pc, b). pc_phase pc,
                     \<lambda>(g, reason, now, edit, pc, b). pc_todo pc]"
    by auto
next
  fix g reason now edit session ended_at d uids b x y xa ya
  assume "(x, y) = stop_step g reason now edit (StopAccrue session ended_at d uids) b"
    "(xa, ya) = y"
  then have "stop_step g reason now edit (StopAccrue session ended_at d uids) b = (x, xa, ya)"
    by simp
  from stop_step_decreases [OF this]
  show "((g, reason, now, edit, x, xa), g, reason, now, edit,
          StopAccrue session ended_at d uids, b)
        \<in> measures [\<lambda>(g, reason, now, edit, pc, b). pc_phase pc,
                     \<lambda>(g, reason, now, edit, pc, b). pc_todo pc]"
    by auto
next
  fix g reason now edit session ended_at d ms b x y xa ya
  assume "(x, y) = stop_step g reason now edit (StopUnmute session ended_at d ms) b"
    "(xa, ya) = y"
  then have "stop_step g reason now edit (StopUnmute session ended_at d ms) b = (x, xa, ya)"
    by simp
  from stop_step_decreases [OF this]
  show "((g, reason, now, edit, x, xa), g, reason, now, edit,
          StopUnmute session ended_at d ms, b)
        \<in> measures [\<lambda>(g, reason, now, edit, pc, b). pc_phase pc,
                     \<lambda>(g, reason, now, edit, pc, b). pc_todo pc]"
    by auto
qed

definition stop_session :: "guild \<Rightarrow> string \<Rightarrow> datetime \<Rightarrow> platform_edit \<Rightarrow> bot \<Rightarrow> (exn + int option) \<times> bot \<times> event list" where
  "stop_session g reason now edit b = run_stop g reason now edit StopEntry b"

text \<open>
  Two calls of \<^verbatim>\<open>stop_session\<close> for one guild on the single event loop, each with
  its own reason: at every boundary either call may take its next step, with the clock,
  the channel cache and the platform's answers of that moment, or another task may
  change the state of the bot. The other tasks considered here register no session for
  the guild and unregister none (no \<^verbatim>\<open>start_session\<close> in between), and they close no
  session record (only \<^verbatim>\<open>stop_session\<close> does). A configuration is the two control
  points, the state and the log.
\<close>

type_synonym stop_config = "(string \<times> stop_pc) \<times> (string \<times> stop_pc) \<times> bot \<times> event list"

inductive stop_interleave :: "nat \<Rightarrow> stop_config \<Rightarrow> stop_config \<Rightarrow> bool" for gid :: nat and c :: stop_config where
  il_start: "stop_interleave gid c c"
| il_first:
    "stop_interleave gid c ((reason1, pc1), call2, b, ev) \<Longrightarrow>
     g_id g = gid \<Longrightarrow>
     stop_step g reason1 now edit pc1 b = (pc1', b', ev') \<Longrightarrow>
     stop_interleave gid c ((reason1, pc1'), call2, b', ev @ ev')"
| il_second:
    "stop_interleave gid c (call1, (reason2, pc2), b, ev) \<Longrightarrow>
     g_id g = gid \<Longrightarrow>
     stop_step g reason2 now edit pc2 b = (pc2', b', ev') \<Longrightarrow>
     stop_interleave gid c (call1, (reason2, pc2'), b', ev @ ev')"
| il_other:
    "stop_interleave gid c (call1, call2, b, ev) \<Longrightarrow>
     active_sessions b' gid = active_sessions b gid \<Longrightarrow>
     stop_interleave gid c (call1, call2, b', ev)"

fun is_close :: "event \<Rightarrow> bool" where
  "is_close (EvCloseRecord sid) = True"
| "is_close (EvEdit uid mute reason) = False"
| "is_close (EvSend msg) = False"
| "is_close (EvSleep secs) = False"
| "is_close (EvCreateTask t) = False"
| "is_close (EvCancelTask t) = False"

text \<open>
  What holds of every configuration that two such calls reach once the first one has
  taken its first step and found a session: the registry has no entry for the guild, the
  first call is past its entry, the second call has not run or has returned \<open>None\<close>,
  and the session records closed so far, together with the one the first call may still
  close, are at most one.
\<close>

fun stop_inv :: "nat \<Rightarrow> stop_config \<Rightarrow> bool" where
  "stop_inv gid ((reason1, pc1), (reason2, pc2), b, ev) =
     (active_sessions b gid = None
      \<and> pc1 \<noteq> StopEntry
      \<and> (pc2 = StopEntry \<or> pc2 = StopDone (Inr None))
      \<and> length (filter is_close ev) + (if pc_phase pc1 = 0 then 0 else 1) \<le> 1)"

section \<open>The mute enforcement loop\<close>

text \<open>
  One iteration of the loop meets the world through a \<open>tick\<close>: the members of the
  channel when the \<^verbatim>\<open>for\<close> starts, the platform's answer to each
  \<^verbatim>\<open>member.edit(mute=True)\<close>, whether the task is cancelled during the sleep of
  this iteration, and what the other tasks do to the state of the bot while the loop
  sleeps. The list of ticks is the stretch of time that is observed: when it is used up
  the loop is still running.
\<close>

record tick =
  tk_members :: "member list"
  tk_edit :: platform_edit
  tk_cancelled :: bool
  tk_world :: "bot \<Rightarrow> bot"

text \<open>
  The \<^verbatim>\<open>for\<close> loop inside the \<^verbatim>\<open>try\<close>: no handler stands around the single
  \<^verbatim>\<open>member.edit\<close>, so an exception of it leaves the loop, and
  \<^verbatim>\<open>bot.enforced_user_ids[guild.id]\<close> raises \<^verbatim>\<open>KeyError\<close> without an entry.
\<close>

fun enforce_mute_members :: "nat \<Rightarrow> platform_edit \<Rightarrow> member list \<Rightarrow> bot \<Rightarrow> outcome" where
  "enforce_mute_members gid edit [] b = (None, b, [])"
| "enforce_mute_members gid edit (m # ms) b =
     (if m_bot m \<or> m_voice m = None then enforce_mute_members gid edit ms b
      else if m_voice m = Some False
      then (case edit (m_id m) True of
              Some e \<Rightarrow> (Some e, b, [EvEdit (m_id m) True ''Active study session enforces mute''])
            | None \<Rightarrow>
                (case enforced_user_ids b gid of
                   None \<Rightarrow>
                     (Some KeyError, b,
                      [EvEdit (m_id m) True ''Active study session enforces mute''])
                 | Some s \<Rightarrow>
                     (case enforce_mute_members gid edit ms
                             (b\<lparr>enforced_user_ids :=
                                  (enforced_user_ids b)(gid \<mapsto> insert (m_id m) s)\<rparr>) of
                        (r, b', ev) \<Rightarrow>
                          (r, b',
                           EvEdit (m_id m) True ''Active study session enforces mute'' # ev))))
      else enforce_mute_members gid edit ms b)"

definition loop_sleep :: "tick \<Rightarrow> int \<Rightarrow> bot \<Rightarrow> outcome" where
  "loop_sleep tk secs b =
     (if tk_cancelled tk then Some CancelledError else None, tk_world tk b, [EvSleep secs])"

text \<open>The body of the \<^verbatim>\<open>try\<close>; \<^verbatim>\<open>bot.focus_mode_active.get(guild.id, True)\<close>.\<close>

definition enforce_try :: "nat \<Rightarrow> tick \<Rightarrow> bot \<Rightarrow> outcome" where
  "enforce_try gid tk b =
     (if \<not> (case focus_mode_active b gid of None \<Rightarrow> True | Some f \<Rightarrow> f)
      then loop_sleep tk 5 b
      else then_do (enforce_mute_members gid (tk_edit tk) (tk_members tk) b)
             (loop_sleep tk 10))"

text \<open>
  The \<^verbatim>\<open>try\<close> with its two handlers, \<^verbatim>\<open>except discord.Forbidden\<close> and
  \<^verbatim>\<open>except Exception\<close>, which both sleep. An exception that no handler catches, or
  that a handler raises, leaves the iteration.
\<close>

definition enforce_iteration :: "nat \<Rightarrow> tick \<Rightarrow> bot \<Rightarrow> outcome" where
  "enforce_iteration gid tk b =
     (case enforce_try gid tk b of
        (None, b1, ev) \<Rightarrow> (None, b1, ev)
      | (Some e, b1, ev) \<Rightarrow>
          if e = Forbidden then then_do (None, b1, ev) (loop_sleep tk 10)
          else if is_Exception e then then_do (None, b1, ev) (loop_sleep tk 10)
          else (Some e, b1, ev))"

datatype loop_result = LoopRunning | LoopReturned | LoopRaised exn

text \<open>\<^verbatim>\<open>while guild.id in bot.active_sessions:\<close>\<close>

fun enforce_loop :: "nat \<Rightarrow> tick list \<Rightarrow> bot \<Rightarrow> loop_result \<times> bot \<times> event list" where
  "enforce_loop gid [] b =
     (if active_sessions b gid = None then LoopReturned else LoopRunning, b, [])"
| "enforce_loop gid (tk # tks) b =
     (if active_sessions b gid = None then (LoopReturned, b, [])
      else (case enforce_iteration gid tk b of
              (Some e, b1, ev) \<Rightarrow> (LoopRaised e, b1, ev)
            | (None, b1, ev) \<Rightarrow>
                (case enforce_loop gid tks b1 of (r, b2, ev2) \<Rightarrow> (r, b2, ev @ ev2))))"

text \<open>
  \<^verbatim>\<open>enforce_channel_mute(session)\<close>; the first argument is what
  \<^verbatim>\<open>bot.get_guild(session.guild_id)\<close> returns.
\<close>

definition enforce_channel_mute :: "guild option \<Rightarrow> ActiveSession \<Rightarrow> tick list \<Rightarrow> bot \<Rightarrow> loop_result \<times> bot \<times> event list" where
  "enforce_channel_mute guild_opt session tks b =
     (case guild_opt of
        None \<Rightarrow> (LoopReturned, b, [])
      | Some g \<Rightarrow>
          (case get_channel g (voice_channel_id session) of
             Some (VoiceChannel cid ms) \<Rightarrow>
               enforce_loop (g_id g) tks
                 (b\<lparr>enforced_user_ids :=
                      (enforced_user_ids b)(g_id g \<mapsto> enforced_of b (g_id g))\<rparr>)
           | _ \<Rightarrow> (LoopReturned, b, [])))"

section \<open>The Pomodoro scheduler\<close>

text \<open>
  A phase of a run (a focus phase or a break) meets the world through a \<open>phase\<close>:
  the clock that \<^verbatim>\<open>set_focus_mode\<close> or \<^verbatim>\<open>stop_session\<close> reads, the channel cache
  of the guild, the platform's answers to \<^verbatim>\<open>member.edit\<close> and to
  \<^verbatim>\<open>text_channel.send\<close>, whether the task is cancelled during the sleep of the
  phase, and what the other tasks do to the state of the bot during that sleep.
\<close>

record phase =
  ph_now :: datetime
  ph_channels :: "channel list"
  ph_edit :: platform_edit
  ph_send :: "exn option"
  ph_cancelled :: bool
  ph_world :: "bot \<Rightarrow> bot"

definition send :: "phase \<Rightarrow> message \<Rightarrow> bot \<Rightarrow> outcome" where
  "send ph msg b = (ph_send ph, b, [EvSend msg])"

definition phase_sleep :: "phase \<Rightarrow> int \<Rightarrow> bot \<Rightarrow> outcome" where
  "phase_sleep ph secs b =
     (if ph_cancelled ph then Some CancelledError else None, ph_world ph b, [EvSleep secs])"

definition focus_phase :: "guild \<Rightarrow> phase \<Rightarrow> int \<Rightarrow> int \<Rightarrow> int \<Rightarrow> bot \<Rightarrow> outcome" where
  "focus_phase g ph cycle cycles work_minutes b =
     then_do
       (then_do
          (set_focus_mode (g\<lparr>g_channels := ph_channels ph\<rparr>) True (ph_now ph) (ph_edit ph) b)
          (send ph (FocusMessage cycle cycles work_minutes)))
       (phase_sleep ph (work_minutes * 60))"

definition break_phase :: "guild \<Rightarrow> phase \<Rightarrow> int \<Rightarrow> bot \<Rightarrow> outcome" where
  "break_phase g ph break_minutes b =
     then_do
       (then_do
          (set_focus_mode (g\<lparr>g_channels := ph_channels ph\<rparr>) False (ph_now ph) (ph_edit ph) b)
          (send ph (BreakMessage break_minutes)))
       (phase_sleep ph (break_minutes * 60))"

text \<open>
  \<^verbatim>\<open>for cycle in range(1, cycles + 1)\<close>, over the cycle numbers still to run; \<open>k\<close>
  counts the phases, the focus phase of a cycle being phase \<open>k\<close> and its break phase
  \<open>k + 1\<close>.
\<close>

fun pomodoro_loop :: "guild \<Rightarrow> (nat \<Rightarrow> phase) \<Rightarrow> int \<Rightarrow> int \<Rightarrow> int \<Rightarrow> int list \<Rightarrow> nat \<Rightarrow> bot \<Rightarrow> outcome" where
  "pomodoro_loop g env work_minutes break_minutes cycles [] k b = (None, b, [])"
| "pomodoro_loop g env work_minutes break_minutes cycles (cycle # rest) k b =
     then_do (focus_phase g (env k) cycle cycles work_minutes b)
       (\<lambda>b1. if cycle = cycles then (None, b1, [])
              else then_do (break_phase g (env (Suc k)) break_minutes b1)
                     (pomodoro_loop g env work_minutes break_minutes cycles rest (k + 2)))"

text \<open>
  \<^verbatim>\<open>duration = await stop_session(guild, reason=...)\<close> and, with a duration, the
  final announcement, as both the normal end of the run and its cancellation handler do.
\<close>

definition stop_and_announce :: "guild \<Rightarrow> phase \<Rightarrow> string \<Rightarrow> (int \<times> int \<times> int \<Rightarrow> message) \<Rightarrow> bot \<Rightarrow> outcome" where
  "stop_and_announce g ph reason mk b =
     (case stop_session (g\<lparr>g_channels := ph_channels ph\<rparr>) reason (ph_now ph) (ph_edit ph) b of
        (Inl e, b', ev) \<Rightarrow> (Some e, b', ev)
      | (Inr None, b', ev) \<Rightarrow> (None, b', ev)
      | (Inr (Some duration), b', ev) \<Rightarrow>
          (ph_send ph, b', ev @ [EvSend (mk (fmt_duration duration))]))"

text \<open>
  \<^verbatim>\<open>run_pomodoro_cycles\<close>: \<open>env\<close> gives the phases of the loop and \<open>fin\<close> the
  world when the run ends or is cancelled. The result is the exception that leaves the
  coroutine, if any.
\<close>

definition run_pomodoro_cycles :: "guild \<Rightarrow> nat \<Rightarrow> int \<Rightarrow> int \<Rightarrow> int \<Rightarrow> (nat \<Rightarrow> phase) \<Rightarrow> phase \<Rightarrow> bot \<Rightarrow> outcome" where
  "run_pomodoro_cycles g text_channel_id work_minutes break_minutes cycles env fin b =
     (case get_channel g text_channel_id of
        None \<Rightarrow> (None, b, [])
      | Some text_channel \<Rightarrow>
          if \<not> is_messageable text_channel then (None, b, [])
          else
            (let tried =
                   then_do
                     (pomodoro_loop g env work_minutes break_minutes cycles [1..cycles] 0 b)
                     (stop_and_announce g fin ''Pomodoro completed'' FinishedMessage);
                 handled =
                   (case tried of
                      (None, b1, ev) \<Rightarrow> (None, b1, ev)
                    | (Some e, b1, ev) \<Rightarrow>
                        if e = CancelledError
                        then (case stop_and_announce g fin ''Pomodoro stopped'' StoppedMessage b1 of
                                (None, b2, ev2) \<Rightarrow> (Some CancelledError, b2, ev @ ev2)
                              | (Some e2, b2, ev2) \<Rightarrow> (Some e2, b2, ev @ ev2))
                        else (Some e, b1, ev))
             in case handled of
                  (r, b2, ev) \<Rightarrow>
                    (r, b2\<lparr>pomodoro_states := (pomodoro_states b2)(g_id g := None)\<rparr>, ev)))"

text \<open>The announcements in a log.\<close>

fun is_send :: "event \<Rightarrow> bool" where
  "is_send (EvSend msg) = True"
| "is_send (EvEdit uid mute reason) = False"
| "is_send (EvSleep secs) = False"
| "is_send (EvCreateTask t) = False"
| "is_send (EvCancelTask t) = False"
| "is_send (EvCloseRecord sid) = False"

fun is_focus_announcement :: "event \<Rightarrow> bool" where
  "is_focus_announcement (EvSend (FocusMessage cycle cycles work_minutes)) = True"
| "is_focus_announcement e = False"

fun is_break_announcement :: "event \<Rightarrow> bool" where
  "is_break_announcement (EvSend (BreakMessage break_minutes)) = True"
| "is_break_announcement e = False"

datatype response =
    UseInServerChannel
  | AlreadyRunning
  | CouldNotStart
  | PomodoroStarted
  | CommandFailed

text \<open>
  The command \<^verbatim>\<open>pomodoro_start\<close>, with \<^verbatim>\<open>interaction.guild\<close> and the id of
  \<^verbatim>\<open>interaction.channel\<close>. The last message reads \<^verbatim>\<open>study_channel.mention\<close>, which
  raises on \<open>None\<close>; the error handler then answers that the command failed.
\<close>

definition pomodoro_start :: "guild option \<Rightarrow> nat option \<Rightarrow> int \<Rightarrow> int \<Rightarrow> int \<Rightarrow> datetime \<Rightarrow> provision \<Rightarrow> bot \<Rightarrow> response \<times> bot \<times> event list" where
  "pomodoro_start guild_opt channel_opt work_minutes break_minutes cycles now prov b =
     (case (guild_opt, channel_opt) of
        (Some g, Some text_channel_id) \<Rightarrow>
          (if pomodoro_states b (g_id g) \<noteq> None then (AlreadyRunning, b, [])
           else (case start_session g now prov b of
                   ((started, study_channel), b1, ev) \<Rightarrow>
                     if \<not> started \<and> active_sessions b1 (g_id g) = None
                     then (CouldNotStart, b1, ev)
                     else (let t = PomodoroTask (g_id g);
                               b2 = b1\<lparr>pomodoro_states := (pomodoro_states b1)(g_id g \<mapsto>
                                      \<lparr>ps_task = t, ps_text_channel_id = text_channel_id,
                                       ps_work_minutes = work_minutes,
                                       ps_break_minutes = break_minutes,
                                       ps_cycles = cycles\<rparr>)\<rparr>
                           in (if study_channel = None then CommandFailed else PomodoroStarted,
                               b2, ev @ [EvCreateTask t]))))
      | _ \<Rightarrow> (UseInServerChannel, b, []))"


section \<open>The weekly bucket key is the Monday of the UTC week\<close>

lemma week_start_utc_eq:
  "week_start_utc dt =
     utc_instant dt div us_per_day - (utc_instant dt div us_per_day + 3) mod 7"
proof -
  have "(x - n * 86400000000) div 86400000000 = x div 86400000000 - n" for x n :: int
    using div_mult_self1 [of "86400000000::int" x "- n"] by (simp add: algebra_simps)
  then show ?thesis
    by (simp add: week_start_utc_def astimezone_utc_def dt_date_def dt_minus_days_def
        dt_weekday_def utc_instant_def us_per_day_def Let_def)
qed

lemma floor_bounds:
  fixes c t :: int
  assumes "0 < c"
  shows "(t div c) * c \<le> t" and "t < (t div c + 1) * c"
proof -
  have eq: "(t div c) * c = t - t mod c" by (simp add: minus_mod_eq_div_mult)
  have m: "0 \<le> t mod c" "t mod c < c" using assms by simp_all
  show "(t div c) * c \<le> t" using eq m by linarith
  have "(t div c + 1) * c = (t div c) * c + c" by (simp add: algebra_simps)
  then show "t < (t div c + 1) * c" using eq m by linarith
qed

lemma le_floor:
  fixes c t d :: int
  assumes "0 < c" "d * c \<le> t"
  shows "d \<le> t div c"
proof -
  have "(d * c) div c \<le> t div c" using assms by (intro zdiv_mono1)
  then show ?thesis using assms by simp
qed

lemma floor_less:
  fixes c t k :: int
  assumes "0 < c" "t < k * c"
  shows "t div c < k"
proof (rule ccontr)
  assume "\<not> t div c < k"
  then have "k * c \<le> (t div c) * c" using assms(1) by simp
  with floor_bounds(1) [OF assms(1), of t] assms(2) show False by linarith
qed

lemma us_per_day_pos: "0 < us_per_day"
  by (simp add: us_per_day_def)

lemma monday_floor:
  fixes D :: int
  shows "(D - (D + 3) mod 7 + 3) mod 7 = 0"
    and "D - (D + 3) mod 7 \<le> D"
    and "D + 1 \<le> D - (D + 3) mod 7 + 7"
    and "(d + 3) mod 7 = 0 \<Longrightarrow> d \<le> D \<Longrightarrow> d \<le> D - (D + 3) mod 7"
  by presburger+

text \<open>
  Claim C7. For every instant, the weekly bucket key is the date of the most recent Monday
  00:00 UTC at or before that instant: the key is a Monday, its midnight (UTC) is not
  after the instant, the instant is less than seven days after it, and no later Monday
  starts at or before the instant. The key depends on the instant only, whatever zone the
  datetime is expressed in, and two instants of the same UTC week, Monday to Sunday,
  have the same key.
\<close>

theorem week_start_utc_most_recent_monday:
  "date_weekday (week_start_utc dt) = 0
   \<and> week_start_utc dt * us_per_day \<le> utc_instant dt
   \<and> utc_instant dt < (week_start_utc dt + 7) * us_per_day
   \<and> (\<forall>d. date_weekday d = 0 \<and> d * us_per_day \<le> utc_instant dt \<longrightarrow> d \<le> week_start_utc dt)
   \<and> (\<forall>dt'. utc_instant dt' = utc_instant dt \<longrightarrow> week_start_utc dt' = week_start_utc dt)
   \<and> (\<forall>dt' m. date_weekday m = 0
         \<and> m * us_per_day \<le> utc_instant dt \<and> utc_instant dt < (m + 7) * us_per_day
         \<and> m * us_per_day \<le> utc_instant dt' \<and> utc_instant dt' < (m + 7) * us_per_day
         \<longrightarrow> week_start_utc dt' = week_start_utc dt)"
proof -
  define D where "D = utc_instant dt div us_per_day"
  have ws: "week_start_utc dt = D - (D + 3) mod 7"
    by (simp add: week_start_utc_eq D_def)
  note pos = us_per_day_pos
  have lo: "D * us_per_day \<le> utc_instant dt" and hi: "utc_instant dt < (D + 1) * us_per_day"
    using floor_bounds [OF us_per_day_pos, of "utc_instant dt"] by (simp_all add: D_def)
  have c1: "date_weekday (week_start_utc dt) = 0"
    by (simp add: ws date_weekday_def monday_floor(1))
  have "week_start_utc dt * us_per_day \<le> D * us_per_day"
    using pos monday_floor(2) [of D] by (simp add: ws)
  with lo have c2: "week_start_utc dt * us_per_day \<le> utc_instant dt" by linarith
  have "(D + 1) * us_per_day \<le> (week_start_utc dt + 7) * us_per_day"
    using pos monday_floor(3) [of D] by (simp add: ws)
  with hi have c3: "utc_instant dt < (week_start_utc dt + 7) * us_per_day" by linarith
  have c4: "d \<le> week_start_utc dt"
    if "date_weekday d = 0" "d * us_per_day \<le> utc_instant dt" for d
    using that monday_floor(4) [of d D] le_floor [OF us_per_day_pos, of d "utc_instant dt"]
    by (simp add: ws date_weekday_def D_def)
  have c5: "week_start_utc dt' = week_start_utc dt" if "utc_instant dt' = utc_instant dt" for dt'
    using that by (simp add: week_start_utc_eq)
  have uniq: "week_start_utc x = m"
    if "date_weekday m = 0" "m * us_per_day \<le> utc_instant x"
       "utc_instant x < (m + 7) * us_per_day" for x m
  proof -
    define E where "E = utc_instant x div us_per_day"
    have "week_start_utc x = E - (E + 3) mod 7"
      unfolding E_def by (rule week_start_utc_eq)
    moreover have "m \<le> E"
      unfolding E_def using that(2) by (rule le_floor [OF us_per_day_pos])
    moreover have "E < m + 7"
      unfolding E_def using that(3) by (rule floor_less [OF us_per_day_pos])
    moreover have "(m + 3) mod 7 = 0" using that(1) by (simp add: date_weekday_def)
    ultimately show ?thesis by presburger
  qed
  have c6: "week_start_utc dt' = week_start_utc dt"
    if "date_weekday m = 0"
       "m * us_per_day \<le> utc_instant dt" "utc_instant dt < (m + 7) * us_per_day"
       "m * us_per_day \<le> utc_instant dt'" "utc_instant dt' < (m + 7) * us_per_day" for dt' m
    using uniq [of m dt] uniq [of m dt'] that by simp
  show ?thesis using c1 c2 c3 c4 c5 c6 by blast
qed

theorem week_start_utc_most_recent_monday_witness:
  "date_weekday (- 10) = 0
   \<and> (- 10) * us_per_day \<le> utc_instant \<lparr>dt_local = 347400000000, dt_offset = 3600000000\<rparr>
   \<and> - 10 \<le> week_start_utc \<lparr>dt_local = 347400000000, dt_offset = 3600000000\<rparr>
   \<and> utc_instant \<lparr>dt_local = 343800000000, dt_offset = 0\<rparr>
       = utc_instant \<lparr>dt_local = 347400000000, dt_offset = 3600000000\<rparr>
   \<and> week_start_utc \<lparr>dt_local = 343800000000, dt_offset = 0\<rparr>
       = week_start_utc \<lparr>dt_local = 347400000000, dt_offset = 3600000000\<rparr>
   \<and> date_weekday (- 3) = 0
   \<and> (- 3) * us_per_day \<le> utc_instant \<lparr>dt_local = 0, dt_offset = 0\<rparr>
   \<and> utc_instant \<lparr>dt_local = 0, dt_offset = 0\<rparr> < (- 3 + 7) * us_per_day
   \<and> week_start_utc \<lparr>dt_local = 0, dt_offset = 0\<rparr>
       = week_start_utc \<lparr>dt_local = 347400000000, dt_offset = 3600000000\<rparr>"
proof -
  let ?a = "\<lparr>dt_local = 347400000000, dt_offset = 3600000000\<rparr>"
  let ?b = "\<lparr>dt_local = 343800000000, dt_offset = 0\<rparr>"
  let ?c = "\<lparr>dt_local = 0, dt_offset = 0\<rparr>"
  note main = week_start_utc_most_recent_monday [of ?a]
  have h1: "date_weekday (- 10) = 0 \<and> (- 10) * us_per_day \<le> utc_instant ?a"
    by (simp add: date_weekday_def us_per_day_def utc_instant_def)
  have h2: "utc_instant ?b = utc_instant ?a"
    by (simp add: utc_instant_def)
  have h3: "date_weekday (- 3) = 0
     \<and> (- 3) * us_per_day \<le> utc_instant ?a \<and> utc_instant ?a < (- 3 + 7) * us_per_day
     \<and> (- 3) * us_per_day \<le> utc_instant ?c \<and> utc_instant ?c < (- 3 + 7) * us_per_day"
    by (simp add: date_weekday_def us_per_day_def utc_instant_def)
  from main h1 have c1: "- 10 \<le> week_start_utc ?a" by blast
  from main h2 have c2: "week_start_utc ?b = week_start_utc ?a" by blast
  from main h3 have c3: "week_start_utc ?c = week_start_utc ?a" by blast
  show ?thesis using h1 h2 h3 c1 c2 c3 by simp
qed


section \<open>The weekly reset\<close>

lemma map_of_filter_key:
  "map_of (filter (\<lambda>row. P (fst row)) tbl) k = (if P k then map_of tbl k else None)"
  by (induction tbl) auto

lemma map_of_upsert_add:
  "map_of (upsert_add k v tbl) =
     (map_of tbl)(k \<mapsto> (case map_of tbl k of None \<Rightarrow> v | Some old \<Rightarrow> old + v))"
proof (cases "map_of tbl k")
  case None
  then show ?thesis
    by (auto simp: upsert_add_def map_add_def fun_eq_iff split: option.splits)
next
  case (Some old)
  then show ?thesis
    by (simp add: upsert_add_def update_conv')
qed

lemma length_filter_partition:
  "length (filter P xs) = length xs - length (filter (\<lambda>x. \<not> P x) xs)"
  using sum_length_filter_compl [of P xs] by simp

text \<open>
  Claim C9. Resetting week W for a community deletes the rows of that community's bucket
  for week W and nothing else: the all-time table, the session history and the guild
  configuration are the same, every weekly total of another week or another community
  is the same, the bucket itself is empty afterwards, and the call returns the number of
  rows removed.
\<close>

theorem reset_weekly_data_only_that_bucket:
  assumes "reset_weekly_data db gid week_start = (n, db')"
  shows "study_time db' = study_time db
     \<and> session_history db' = session_history db
     \<and> guild_config db' = guild_config db
     \<and> (\<forall>g u. get_user_seconds db' g u = get_user_seconds db g u)
     \<and> (\<forall>g u w. \<not> (g = gid \<and> w = week_start) \<longrightarrow>
           map_of (weekly_study_time db') (g, u, w) = map_of (weekly_study_time db) (g, u, w))
     \<and> (\<forall>u. map_of (weekly_study_time db') (gid, u, week_start) = None)
     \<and> weekly_study_time db'
         = filter (\<lambda>row. \<not> weekly_row_matches gid week_start row) (weekly_study_time db)
     \<and> n = length (filter (weekly_row_matches gid week_start) (weekly_study_time db))
     \<and> n = length (weekly_study_time db) - length (weekly_study_time db')"
proof -
  let ?keep = "\<lambda>k :: nat \<times> nat \<times> date. \<not> (fst k = gid \<and> snd (snd k) = week_start)"
  have db': "db' = db\<lparr>weekly_study_time :=
      filter (\<lambda>row. \<not> weekly_row_matches gid week_start row) (weekly_study_time db)\<rparr>"
    and n: "n = length (filter (weekly_row_matches gid week_start) (weekly_study_time db))"
    using assms by (simp_all add: reset_weekly_data_def)
  have flt: "weekly_study_time db' = filter (\<lambda>row. ?keep (fst row)) (weekly_study_time db)"
    by (simp add: db' weekly_row_matches_def)
  have look: "map_of (weekly_study_time db') k = (if ?keep k then map_of (weekly_study_time db) k else None)" for k
    unfolding flt by (rule map_of_filter_key)
  have "n = length (weekly_study_time db) - length (weekly_study_time db')"
    unfolding n using length_filter_partition [of "weekly_row_matches gid week_start" "weekly_study_time db"]
    by (simp add: db')
  then show ?thesis
    using n by (simp add: look) (simp add: db' get_user_seconds_def)
qed

theorem reset_weekly_data_only_that_bucket_witness:
  "reset_weekly_data
     (empty_store\<lparr>study_time := [((1, 10), 150)],
          weekly_study_time :=
            [((1, 10, 0), 100), ((1, 10, 7), 50), ((2, 10, 0), 30), ((1, 11, 0), 20)]\<rparr>)
     1 0
   = (2, (empty_store\<lparr>study_time := [((1, 10), 150)],
          weekly_study_time := [((1, 10, 7), 50), ((2, 10, 0), 30)]\<rparr>))
   \<and> map_of (weekly_study_time
         (empty_store\<lparr>study_time := [((1, 10), 150)],
          weekly_study_time := [((1, 10, 7), 50), ((2, 10, 0), 30)]\<rparr>)) (1, 10, 7)
     = map_of (weekly_study_time
         (empty_store\<lparr>study_time := [((1, 10), 150)],
          weekly_study_time :=
            [((1, 10, 0), 100), ((1, 10, 7), 50), ((2, 10, 0), 30), ((1, 11, 0), 20)]\<rparr>)) (1, 10, 7)
   \<and> map_of (weekly_study_time
         (empty_store\<lparr>study_time := [((1, 10), 150)],
          weekly_study_time := [((1, 10, 7), 50), ((2, 10, 0), 30)]\<rparr>)) (2, 10, 0)
     = map_of (weekly_study_time
         (empty_store\<lparr>study_time := [((1, 10), 150)],
          weekly_study_time :=
            [((1, 10, 0), 100), ((1, 10, 7), 50), ((2, 10, 0), 30), ((1, 11, 0), 20)]\<rparr>)) (2, 10, 0)
   \<and> map_of (weekly_study_time
         (empty_store\<lparr>study_time := [((1, 10), 150)],
          weekly_study_time := [((1, 10, 7), 50), ((2, 10, 0), 30)]\<rparr>)) (1, 10, 0) = None"
proof -
  let ?db = "(empty_store\<lparr>study_time := [((1, 10), 150)],
          weekly_study_time :=
            [((1, 10, 0), 100), ((1, 10, 7), 50), ((2, 10, 0), 30), ((1, 11, 0), 20)]\<rparr>)"
  let ?db' = "(empty_store\<lparr>study_time := [((1, 10), 150)],
          weekly_study_time := [((1, 10, 7), 50), ((2, 10, 0), 30)]\<rparr>)"
  have run: "reset_weekly_data ?db 1 0 = (2, ?db')"
    by (simp add: reset_weekly_data_def weekly_row_matches_def empty_store_def)
  note main = reset_weekly_data_only_that_bucket [OF run]
  from main have others: "\<forall>g u w. \<not> (g = 1 \<and> w = 0) \<longrightarrow>
      map_of (weekly_study_time ?db') (g, u, w) = map_of (weekly_study_time ?db) (g, u, w)"
    by blast
  from main have bucket: "\<forall>u. map_of (weekly_study_time ?db') (1, u, 0) = None"
    by blast
  have a: "map_of (weekly_study_time ?db') (1, 10, 7)
      = map_of (weekly_study_time ?db) (1, 10, 7)"
    by (rule others [rule_format]) simp
  have b: "map_of (weekly_study_time ?db') (2, 10, 0)
      = map_of (weekly_study_time ?db) (2, 10, 0)"
    by (rule others [rule_format]) simp
  have c: "map_of (weekly_study_time ?db') (1, 10, 0) = None"
    by (rule bucket [rule_format])
  show ?thesis using run a b c by blast
qed


section \<open>What accrual persists\<close>

lemma int_total_seconds_floor:
  "(int_total_seconds td \<le> 0) = (td div us_per_second \<le> 0)"
  "0 < td div us_per_second \<Longrightarrow> int_total_seconds td = td div us_per_second"
proof -
  have pos: "0 < us_per_second" by (simp add: us_per_second_def)
  show "(int_total_seconds td \<le> 0) = (td div us_per_second \<le> 0)"
  proof (cases "0 \<le> td")
    case True
    then show ?thesis by (simp add: int_total_seconds_def)
  next
    case False
    then have "0 \<le> (- td) div us_per_second" "td div us_per_second < 0"
      using pos by (simp_all add: pos_imp_zdiv_nonneg_iff pos_imp_zdiv_neg_iff)
    with False show ?thesis by (simp add: int_total_seconds_def)
  qed
  show "int_total_seconds td = td div us_per_second" if "0 < td div us_per_second"
  proof -
    have "0 \<le> td" using that pos pos_imp_zdiv_nonneg_iff [of us_per_second td] by linarith
    then show ?thesis by (simp add: int_total_seconds_def)
  qed
qed

lemma add_study_seconds_nonpos:
  "seconds \<le> 0 \<Longrightarrow> add_study_seconds db gid uid seconds at_time = db"
  by (simp add: add_study_seconds_def)

lemma add_study_seconds_pos:
  assumes "0 < seconds"
  shows "get_user_seconds (add_study_seconds db gid uid seconds at_time) g u
           = (if g = gid \<and> u = uid then get_user_seconds db g u + seconds
              else get_user_seconds db g u)"
    and "get_weekly_seconds (add_study_seconds db gid uid seconds at_time) g u w
           = (if g = gid \<and> u = uid \<and> w = week_start_utc at_time
              then get_weekly_seconds db g u w + seconds
              else get_weekly_seconds db g u w)"
    and "session_history (add_study_seconds db gid uid seconds at_time) = session_history db"
    and "guild_config (add_study_seconds db gid uid seconds at_time) = guild_config db"
  using assms
  by (auto simp: add_study_seconds_def get_user_seconds_def get_weekly_seconds_def
      map_of_upsert_add Let_def split: option.splits)

lemma accrue_user_time_ledger:
  "session_joined_at (accrue_user_time gid uid now b)
     = (case session_joined_at b gid of
          None \<Rightarrow> session_joined_at b
        | Some ledger \<Rightarrow> (session_joined_at b)(gid \<mapsto> AList.delete uid ledger))"
  by (simp add: accrue_user_time_def Let_def split: option.splits)

lemma accrue_user_time_store:
  "store (accrue_user_time gid uid now b)
     = (case joined_at_of b gid uid of
          None \<Rightarrow> store b
        | Some j \<Rightarrow> add_study_seconds (store b) gid uid (int_total_seconds (dt_sub now j)) now)"
  by (simp add: accrue_user_time_def Let_def split: option.splits)

lemma accrue_user_time_frame:
  "active_sessions (accrue_user_time gid uid now b) = active_sessions b"
  "active_session_record_id (accrue_user_time gid uid now b) = active_session_record_id b"
  "enforced_user_ids (accrue_user_time gid uid now b) = enforced_user_ids b"
  "focus_mode_active (accrue_user_time gid uid now b) = focus_mode_active b"
  "pomodoro_states (accrue_user_time gid uid now b) = pomodoro_states b"
  by (simp_all add: accrue_user_time_def Let_def split: option.splits)

text \<open>
  Claim C3. \<^verbatim>\<open>accrue_user_time\<close> removes the user's join instant from the ledger
  and touches no other entry. Without an entry nothing is persisted. With an entry
  joined at \<open>j\<close>, the whole seconds from \<open>j\<close> to \<open>now\<close>, rounded down, are added to
  the user's all-time total and to the total of the week of \<open>now\<close>, and to no other
  total, when they are positive; zero or fewer seconds leave the store as it is. The
  other dictionaries of the bot are not touched.
\<close>

theorem accrue_user_time_persists_floor_seconds:
  "joined_at_of (accrue_user_time gid uid now b) gid uid = None
   \<and> (\<forall>g u. \<not> (g = gid \<and> u = uid) \<longrightarrow>
         joined_at_of (accrue_user_time gid uid now b) g u = joined_at_of b g u)
   \<and> (joined_at_of b gid uid = None \<longrightarrow> store (accrue_user_time gid uid now b) = store b)
   \<and> (\<forall>j. joined_at_of b gid uid = Some j \<longrightarrow>
         (if (utc_instant now - utc_instant j) div us_per_second \<le> 0
          then store (accrue_user_time gid uid now b) = store b
          else get_user_seconds (store (accrue_user_time gid uid now b)) gid uid
                 = get_user_seconds (store b) gid uid
                   + (utc_instant now - utc_instant j) div us_per_second
             \<and> get_weekly_seconds (store (accrue_user_time gid uid now b)) gid uid
                   (week_start_utc now)
                 = get_weekly_seconds (store b) gid uid (week_start_utc now)
                   + (utc_instant now - utc_instant j) div us_per_second
             \<and> (\<forall>g u. \<not> (g = gid \<and> u = uid) \<longrightarrow>
                   get_user_seconds (store (accrue_user_time gid uid now b)) g u
                     = get_user_seconds (store b) g u)
             \<and> (\<forall>g u w. \<not> (g = gid \<and> u = uid \<and> w = week_start_utc now) \<longrightarrow>
                   get_weekly_seconds (store (accrue_user_time gid uid now b)) g u w
                     = get_weekly_seconds (store b) g u w)
             \<and> session_history (store (accrue_user_time gid uid now b))
                 = session_history (store b)
             \<and> guild_config (store (accrue_user_time gid uid now b)) = guild_config (store b)))
   \<and> active_sessions (accrue_user_time gid uid now b) = active_sessions b
   \<and> active_session_record_id (accrue_user_time gid uid now b) = active_session_record_id b
   \<and> enforced_user_ids (accrue_user_time gid uid now b) = enforced_user_ids b
   \<and> focus_mode_active (accrue_user_time gid uid now b) = focus_mode_active b
   \<and> pomodoro_states (accrue_user_time gid uid now b) = pomodoro_states b"
proof -
  let ?b' = "accrue_user_time gid uid now b"
  have c1: "joined_at_of ?b' gid uid = None"
    by (simp add: joined_at_of_def accrue_user_time_ledger delete_conv' split: option.splits)
  have c2: "joined_at_of ?b' g u = joined_at_of b g u" if "\<not> (g = gid \<and> u = uid)" for g u
    using that
    by (auto simp: joined_at_of_def accrue_user_time_ledger delete_conv' split: option.splits)
  have c3: "store ?b' = store b" if "joined_at_of b gid uid = None"
    using that by (simp add: accrue_user_time_store)
  have c4: "store ?b' = store b"
    if "joined_at_of b gid uid = Some j" "(utc_instant now - utc_instant j) div us_per_second \<le> 0"
    for j
    using that int_total_seconds_floor(1) [of "dt_sub now j"]
    by (simp add: accrue_user_time_store dt_sub_def add_study_seconds_nonpos)
  have c5: "store ?b' = add_study_seconds (store b) gid uid
                ((utc_instant now - utc_instant j) div us_per_second) now"
    if "joined_at_of b gid uid = Some j"
       "\<not> (utc_instant now - utc_instant j) div us_per_second \<le> 0" for j
    using that int_total_seconds_floor(2) [of "dt_sub now j"]
    by (simp add: accrue_user_time_store dt_sub_def)
  show ?thesis
    using c1 c2 c3 c4 c5 by (auto simp: add_study_seconds_pos accrue_user_time_frame)
qed

theorem accrue_user_time_persists_floor_seconds_witness:
  "joined_at_of
     (initial_bot\<lparr>session_joined_at := [1 \<mapsto> [(10, \<lparr>dt_local = 0, dt_offset = 0\<rparr>)]]\<rparr>) 1 10
     = Some \<lparr>dt_local = 0, dt_offset = 0\<rparr>
   \<and> get_user_seconds
       (store (accrue_user_time 1 10 \<lparr>dt_local = 120500000, dt_offset = 0\<rparr>
          (initial_bot\<lparr>session_joined_at := [1 \<mapsto> [(10, \<lparr>dt_local = 0, dt_offset = 0\<rparr>)]]\<rparr>)))
       1 10 = 120
   \<and> get_weekly_seconds
       (store (accrue_user_time 1 10 \<lparr>dt_local = 120500000, dt_offset = 0\<rparr>
          (initial_bot\<lparr>session_joined_at := [1 \<mapsto> [(10, \<lparr>dt_local = 0, dt_offset = 0\<rparr>)]]\<rparr>)))
       1 10 (- 3) = 120
   \<and> get_user_seconds
       (store (accrue_user_time 1 10 \<lparr>dt_local = 120500000, dt_offset = 0\<rparr>
          (initial_bot\<lparr>session_joined_at := [1 \<mapsto> [(10, \<lparr>dt_local = 0, dt_offset = 0\<rparr>)]]\<rparr>)))
       1 11 = 0
   \<and> joined_at_of
       (accrue_user_time 1 10 \<lparr>dt_local = 120500000, dt_offset = 0\<rparr>
          (initial_bot\<lparr>session_joined_at := [1 \<mapsto> [(10, \<lparr>dt_local = 0, dt_offset = 0\<rparr>)]]\<rparr>))
       1 10 = None
   \<and> store (accrue_user_time 1 10 \<lparr>dt_local = 999999, dt_offset = 0\<rparr>
          (initial_bot\<lparr>session_joined_at := [1 \<mapsto> [(10, \<lparr>dt_local = 0, dt_offset = 0\<rparr>)]]\<rparr>))
       = empty_store
   \<and> joined_at_of
       (initial_bot\<lparr>session_joined_at := [1 \<mapsto> [(10, \<lparr>dt_local = 0, dt_offset = 0\<rparr>)]]\<rparr>) 1 11
     = None
   \<and> store (accrue_user_time 1 11 \<lparr>dt_local = 120500000, dt_offset = 0\<rparr>
          (initial_bot\<lparr>session_joined_at := [1 \<mapsto> [(10, \<lparr>dt_local = 0, dt_offset = 0\<rparr>)]]\<rparr>))
       = empty_store"
proof -
  let ?t0 = "\<lparr>dt_local = 0, dt_offset = 0\<rparr>"
  let ?now = "\<lparr>dt_local = 120500000, dt_offset = 0\<rparr>"
  let ?soon = "\<lparr>dt_local = 999999, dt_offset = 0\<rparr>"
  let ?b = "initial_bot\<lparr>session_joined_at := [1 \<mapsto> [(10, ?t0)]]\<rparr>"
  have present: "joined_at_of ?b 1 10 = Some ?t0"
    by (simp add: joined_at_of_def)
  have absent: "joined_at_of ?b 1 11 = None"
    by (simp add: joined_at_of_def)
  have secs: "(utc_instant ?now - utc_instant ?t0) div us_per_second = 120"
    and none: "(utc_instant ?soon - utc_instant ?t0) div us_per_second = 0"
    and week: "week_start_utc ?now = - 3"
    by (simp_all add: utc_instant_def us_per_second_def week_start_utc_eq us_per_day_def)
  have before: "store ?b = empty_store" "get_user_seconds empty_store 1 10 = 0"
    "get_weekly_seconds empty_store 1 10 (- 3) = 0" "get_user_seconds empty_store 1 11 = 0"
    by (simp_all add: initial_bot_def get_user_seconds_def get_weekly_seconds_def empty_store_def)
  note long = accrue_user_time_persists_floor_seconds [of 1 10 ?now ?b]
  note short = accrue_user_time_persists_floor_seconds [of 1 10 ?soon ?b]
  note other = accrue_user_time_persists_floor_seconds [of 1 11 ?now ?b]
  from long present secs week before
  have a: "get_user_seconds (store (accrue_user_time 1 10 ?now ?b)) 1 10 = 120"
    and b: "get_weekly_seconds (store (accrue_user_time 1 10 ?now ?b)) 1 10 (- 3) = 120"
    and c: "get_user_seconds (store (accrue_user_time 1 10 ?now ?b)) 1 11 = 0"
    by simp_all
  from long have d: "joined_at_of (accrue_user_time 1 10 ?now ?b) 1 10 = None"
    by blast
  from short present none before
  have e: "store (accrue_user_time 1 10 ?soon ?b) = empty_store"
    by simp
  from other absent before
  have f: "store (accrue_user_time 1 11 ?now ?b) = empty_store"
    by simp
  show ?thesis using present absent a b c d e f by simp
qed


section \<open>The session registry\<close>

text \<open>
  Claim C2. Without an active session for the community, \<^verbatim>\<open>stop_session\<close> returns
  \<open>None\<close>, leaves the whole state of the bot (registry, ledger, enforced users, focus
  flag, store) as it was, and calls nothing.
\<close>

theorem stop_session_without_session:
  assumes "active_sessions b (g_id g) = None"
  shows "stop_session g reason now edit b = (Inr None, b, [])"
  using assms by (simp add: stop_session_def)

theorem stop_session_without_session_witness:
  "active_sessions initial_bot (g_id \<lparr>g_id = 7, g_channels = []\<rparr>) = None
   \<and> stop_session \<lparr>g_id = 7, g_channels = []\<rparr> ''Study session ended''
        \<lparr>dt_local = 0, dt_offset = 0\<rparr> (\<lambda>uid mute. None) initial_bot
      = (Inr None, initial_bot, [])"
proof -
  have h: "active_sessions initial_bot (g_id \<lparr>g_id = 7, g_channels = []\<rparr>) = None"
    by (simp add: initial_bot_def)
  from stop_session_without_session [OF h] h show ?thesis by simp
qed

lemma get_channel_id:
  "get_channel g cid = Some c \<Longrightarrow> channel_id c = cid"
  by (auto simp: get_channel_def find_Some_iff)

text \<open>
  A session is active for community 7 on voice channel 5, and channel 5 is no longer in
  the guild's channel cache: \<^verbatim>\<open>start_session\<close> answers \<open>(False, None)\<close>, with no
  channel.
\<close>

theorem start_session_counterexample:
  "active_sessions
     (initial_bot\<lparr>active_sessions :=
        [7 \<mapsto> \<lparr>guild_id = 7, voice_channel_id = 5,
                started_at = \<lparr>dt_local = 0, dt_offset = 0\<rparr>,
                enforce_mute_task = Some (EnforceMuteTask 7)\<rparr>]\<rparr>) 7
     = Some \<lparr>guild_id = 7, voice_channel_id = 5,
             started_at = \<lparr>dt_local = 0, dt_offset = 0\<rparr>,
             enforce_mute_task = Some (EnforceMuteTask 7)\<rparr>
   \<and> fst (start_session \<lparr>g_id = 7, g_channels = [TextChannel 9]\<rparr>
            \<lparr>dt_local = 60000000, dt_offset = 0\<rparr>
            \<lparr>new_category_id = 20, new_voice_channel_id = 21\<rparr>
            (initial_bot\<lparr>active_sessions :=
               [7 \<mapsto> \<lparr>guild_id = 7, voice_channel_id = 5,
                       started_at = \<lparr>dt_local = 0, dt_offset = 0\<rparr>,
                       enforce_mute_task = Some (EnforceMuteTask 7)\<rparr>]\<rparr>))
     = (False, None)"
  by (simp add: start_session_def get_channel_def)

text \<open>
  Claim C1, as the code has it. With a session already active for the community,
  \<^verbatim>\<open>start_session\<close> returns \<open>started = False\<close>, changes nothing in the state of
  the bot (no second session, the same start instant, the same store) and calls nothing.
  The channel it returns is the one the session's channel id resolves to when that is a
  voice channel of the guild, and \<open>None\<close> when the id resolves to nothing or to a
  channel of another kind.
\<close>

theorem start_session_when_active:
  assumes "active_sessions b (g_id g) = Some s"
  shows "start_session g now prov b
           = ((False, voice_channel_or_none (get_channel g (voice_channel_id s))), b, [])
     \<and> (\<forall>cid ms. get_channel g (voice_channel_id s) = Some (VoiceChannel cid ms) \<longrightarrow>
           snd (fst (start_session g now prov b)) = Some (VoiceChannel cid ms)
           \<and> cid = voice_channel_id s)
     \<and> ((\<forall>cid ms. get_channel g (voice_channel_id s) \<noteq> Some (VoiceChannel cid ms)) \<longrightarrow>
           snd (fst (start_session g now prov b)) = None)
     \<and> active_sessions (fst (snd (start_session g now prov b))) (g_id g) = Some s"
proof -
  have eq: "start_session g now prov b
      = ((False, voice_channel_or_none (get_channel g (voice_channel_id s))), b, [])"
    using assms by (simp add: start_session_def)
  have some: "voice_channel_or_none (get_channel g (voice_channel_id s)) = Some (VoiceChannel cid ms)
      \<and> cid = voice_channel_id s"
    if "get_channel g (voice_channel_id s) = Some (VoiceChannel cid ms)" for cid ms
    using that get_channel_id [OF that] by simp
  have none: "voice_channel_or_none (get_channel g (voice_channel_id s)) = None"
    if "\<forall>cid ms. get_channel g (voice_channel_id s) \<noteq> Some (VoiceChannel cid ms)"
    using that by (cases "get_channel g (voice_channel_id s)" rule: voice_channel_or_none.cases) auto
  show ?thesis using assms some none by (simp add: eq)
qed

theorem start_session_when_active_witness:
  "active_sessions
     (initial_bot\<lparr>active_sessions :=
        [7 \<mapsto> \<lparr>guild_id = 7, voice_channel_id = 5,
                started_at = \<lparr>dt_local = 0, dt_offset = 0\<rparr>,
                enforce_mute_task = Some (EnforceMuteTask 7)\<rparr>]\<rparr>)
     (g_id \<lparr>g_id = 7, g_channels = [TextChannel 9, VoiceChannel 5 []]\<rparr>)
     = Some \<lparr>guild_id = 7, voice_channel_id = 5,
             started_at = \<lparr>dt_local = 0, dt_offset = 0\<rparr>,
             enforce_mute_task = Some (EnforceMuteTask 7)\<rparr>
   \<and> get_channel \<lparr>g_id = 7, g_channels = [TextChannel 9, VoiceChannel 5 []]\<rparr> 5
     = Some (VoiceChannel 5 [])
   \<and> start_session \<lparr>g_id = 7, g_channels = [TextChannel 9, VoiceChannel 5 []]\<rparr>
        \<lparr>dt_local = 60000000, dt_offset = 0\<rparr>
        \<lparr>new_category_id = 20, new_voice_channel_id = 21\<rparr>
        (initial_bot\<lparr>active_sessions :=
           [7 \<mapsto> \<lparr>guild_id = 7, voice_channel_id = 5,
                   started_at = \<lparr>dt_local = 0, dt_offset = 0\<rparr>,
                   enforce_mute_task = Some (EnforceMuteTask 7)\<rparr>]\<rparr>)
     = ((False, Some (VoiceChannel 5 [])),
        initial_bot\<lparr>active_sessions :=
           [7 \<mapsto> \<lparr>guild_id = 7, voice_channel_id = 5,
                   started_at = \<lparr>dt_local = 0, dt_offset = 0\<rparr>,
                   enforce_mute_task = Some (EnforceMuteTask 7)\<rparr>]\<rparr>,
        [])"
proof -
  let ?s = "\<lparr>guild_id = 7, voice_channel_id = 5,
             started_at = \<lparr>dt_local = 0, dt_offset = 0\<rparr>,
             enforce_mute_task = Some (EnforceMuteTask 7)\<rparr>"
  let ?b = "initial_bot\<lparr>active_sessions := [7 \<mapsto> ?s]\<rparr>"
  let ?g = "\<lparr>g_id = 7, g_channels = [TextChannel 9, VoiceChannel 5 []]\<rparr>"
  have h: "active_sessions ?b (g_id ?g) = Some ?s" by simp
  have c: "get_channel ?g 5 = Some (VoiceChannel 5 [])" by (simp add: get_channel_def)
  from start_session_when_active [OF h, of "\<lparr>dt_local = 60000000, dt_offset = 0\<rparr>"
      "\<lparr>new_category_id = 20, new_voice_channel_id = 21\<rparr>"]
  have "start_session ?g \<lparr>dt_local = 60000000, dt_offset = 0\<rparr>
      \<lparr>new_category_id = 20, new_voice_channel_id = 21\<rparr> ?b
      = ((False, voice_channel_or_none (get_channel ?g (voice_channel_id ?s))), ?b, [])"
    by blast
  with h c show ?thesis by simp
qed


section \<open>What ends the mute enforcement loop\<close>

lemma enforce_mute_members_raises:
  "enforce_mute_members gid edit ms b = (Some e, b', ev) \<Longrightarrow>
     e = KeyError \<or> (\<exists>m\<in>set ms. edit (m_id m) True = Some e)"
proof (induction ms arbitrary: b ev)
  case Nil
  then show ?case by simp
next
  case (Cons m ms)
  then show ?case
    by (fastforce split: if_splits option.splits prod.splits)
qed

lemma loop_sleep_result:
  "loop_sleep tk secs b = (r, b', ev) \<Longrightarrow>
     r = (if tk_cancelled tk then Some CancelledError else None) \<and> ev = [EvSleep secs]"
  by (auto simp: loop_sleep_def)

lemma enforce_try_raises:
  assumes "enforce_try gid tk b = (Some e, b', ev)"
  shows "(e = CancelledError \<and> tk_cancelled tk) \<or> e = KeyError
         \<or> (\<exists>m\<in>set (tk_members tk). tk_edit tk (m_id m) True = Some e)"
proof (cases "case focus_mode_active b gid of None \<Rightarrow> True | Some f \<Rightarrow> f")
  case False
  with assms have "loop_sleep tk 5 b = (Some e, b', ev)"
    by (simp add: enforce_try_def)
  then show ?thesis by (auto simp: loop_sleep_def split: if_splits)
next
  case True
  obtain r1 b1 ev1 where run: "enforce_mute_members gid (tk_edit tk) (tk_members tk) b = (r1, b1, ev1)"
    by (cases "enforce_mute_members gid (tk_edit tk) (tk_members tk) b") auto
  show ?thesis
  proof (cases r1)
    case None
    with assms True run have "fst (loop_sleep tk 10 b1) = Some e"
      by (auto simp: enforce_try_def then_do_def split: prod.splits)
    then show ?thesis by (auto simp: loop_sleep_def split: if_splits)
  next
    case (Some e1)
    with assms True run have "e = e1"
      by (auto simp: enforce_try_def then_do_def)
    with Some run enforce_mute_members_raises [of gid "tk_edit tk" "tk_members tk" b e b1 ev1]
    show ?thesis by auto
  qed
qed

lemma enforce_iteration_raises:
  assumes "enforce_iteration gid tk b = (Some e, b', ev)"
  shows "e = CancelledError
         \<and> (tk_cancelled tk
            \<or> (\<exists>m\<in>set (tk_members tk). tk_edit tk (m_id m) True = Some CancelledError))"
proof -
  obtain r1 b1 ev1 where t: "enforce_try gid tk b = (r1, b1, ev1)"
    by (cases "enforce_try gid tk b") auto
  show ?thesis
  proof (cases r1)
    case None
    with assms t show ?thesis by (simp add: enforce_iteration_def)
  next
    case (Some e1)
    note raised = enforce_try_raises [OF t [unfolded Some]]
    show ?thesis
    proof (cases "e1 = Forbidden \<or> is_Exception e1")
      case True
      with assms t Some have "fst (loop_sleep tk 10 b1) = Some e"
        by (auto simp: enforce_iteration_def then_do_def split: prod.splits if_splits)
      then show ?thesis by (auto simp: loop_sleep_def split: if_splits)
    next
      case False
      then have e1: "e1 = CancelledError" by (simp add: is_Exception_def)
      with assms t Some False have "e = CancelledError"
        by (auto simp: enforce_iteration_def)
      with raised e1 show ?thesis by auto
    qed
  qed
qed

lemma enforce_iteration_sleeps:
  assumes "enforce_iteration gid tk b = (None, b', ev)"
  shows "ev \<noteq> [] \<and> (last ev = EvSleep 10 \<or> last ev = EvSleep 5)"
proof -
  obtain r1 b1 ev1 where t: "enforce_try gid tk b = (r1, b1, ev1)"
    by (cases "enforce_try gid tk b") auto
  show ?thesis
  proof (cases r1)
    case None
    with assms t have ev: "ev = ev1" by (simp add: enforce_iteration_def)
    from t None show ?thesis unfolding ev
      by (auto simp: enforce_try_def then_do_def loop_sleep_def split: if_splits prod.splits option.splits)
  next
    case (Some e1)
    with assms t show ?thesis
      by (auto simp: enforce_iteration_def then_do_def loop_sleep_def split: if_splits prod.splits)
  qed
qed

lemma enforce_loop_result:
  "enforce_loop gid tks b = (r, b', ev) \<Longrightarrow>
     (r = LoopReturned \<longrightarrow> active_sessions b' gid = None)
     \<and> (r = LoopRunning \<longrightarrow> active_sessions b' gid \<noteq> None)
     \<and> (\<forall>e. r = LoopRaised e \<longrightarrow>
           e = CancelledError
           \<and> (\<exists>tk\<in>set tks. tk_cancelled tk
                 \<or> (\<exists>m\<in>set (tk_members tk). tk_edit tk (m_id m) True = Some CancelledError)))"
proof (induction tks arbitrary: b r b' ev)
  case Nil
  then show ?case by (auto split: if_splits)
next
  case (Cons tk tks)
  show ?case
  proof (cases "active_sessions b gid = None")
    case True
    with Cons.prems show ?thesis by auto
  next
    case False
    obtain r1 b1 ev1 where it: "enforce_iteration gid tk b = (r1, b1, ev1)"
      by (cases "enforce_iteration gid tk b") auto
    show ?thesis
    proof (cases r1)
      case (Some e)
      with Cons.prems False it have r: "r = LoopRaised e" by auto
      from enforce_iteration_raises [OF it [unfolded Some]] r show ?thesis by auto
    next
      case None
      obtain r2 b2 ev2 where rest: "enforce_loop gid tks b1 = (r2, b2, ev2)"
        by (cases "enforce_loop gid tks b1") auto
      with Cons.prems False it None have "r = r2" "b' = b2" by auto
      with Cons.IH [OF rest] show ?thesis by auto
    qed
  qed
qed

lemma enforce_channel_mute_runs_loop:
  assumes "get_channel g (voice_channel_id session) = Some (VoiceChannel cid ms)"
  shows "enforce_channel_mute (Some g) session tks b
           = enforce_loop (g_id g) tks
               (b\<lparr>enforced_user_ids :=
                    (enforced_user_ids b)(g_id g \<mapsto> enforced_of b (g_id g))\<rparr>)"
  using assms by (simp add: enforce_channel_mute_def)

lemma enforce_loop_outcomes:
  "(active_sessions b gid = None \<longrightarrow> enforce_loop gid tks b = (LoopReturned, b, []))
   \<and> (fst (enforce_loop gid tks b) = LoopReturned \<longrightarrow>
         active_sessions (fst (snd (enforce_loop gid tks b))) gid = None)
   \<and> (fst (enforce_loop gid tks b) = LoopRunning \<longrightarrow>
         active_sessions (fst (snd (enforce_loop gid tks b))) gid \<noteq> None)
   \<and> (\<forall>e. fst (enforce_loop gid tks b) = LoopRaised e \<longrightarrow>
         e = CancelledError
         \<and> (\<exists>tk\<in>set tks. tk_cancelled tk
               \<or> (\<exists>m\<in>set (tk_members tk). tk_edit tk (m_id m) True = Some CancelledError)))
   \<and> (\<forall>tk b1 e. fst (enforce_iteration gid tk b1) = Some e \<longrightarrow> e = CancelledError)
   \<and> (\<forall>tk b1. fst (enforce_iteration gid tk b1) = None \<longrightarrow>
         snd (snd (enforce_iteration gid tk b1)) \<noteq> []
         \<and> (last (snd (snd (enforce_iteration gid tk b1))) = EvSleep 10
            \<or> last (snd (snd (enforce_iteration gid tk b1))) = EvSleep 5))"
proof -
  have a: "enforce_loop gid tks b = (LoopReturned, b, [])" if "active_sessions b gid = None"
    using that by (cases tks) simp_all
  obtain r b' ev where run: "enforce_loop gid tks b = (r, b', ev)"
    by (cases "enforce_loop gid tks b") auto
  note res = enforce_loop_result [OF run]
  have it1: "e = CancelledError" if raised: "fst (enforce_iteration gid tk b1) = Some e" for tk b1 e
  proof -
    obtain b2 ev2 where "enforce_iteration gid tk b1 = (Some e, b2, ev2)"
      using raised by (metis prod.collapse)
    from enforce_iteration_raises [OF this] show ?thesis by simp
  qed
  have it2: "snd (snd (enforce_iteration gid tk b1)) \<noteq> []
         \<and> (last (snd (snd (enforce_iteration gid tk b1))) = EvSleep 10
            \<or> last (snd (snd (enforce_iteration gid tk b1))) = EvSleep 5)"
    if quiet: "fst (enforce_iteration gid tk b1) = None" for tk b1
  proof -
    obtain b2 ev2 where "enforce_iteration gid tk b1 = (None, b2, ev2)"
      using quiet by (metis prod.collapse)
    from enforce_iteration_sleeps [OF this] this show ?thesis by simp
  qed
  show ?thesis
    using a res it1 it2 unfolding run by (simp del: enforce_loop.simps)
qed


lemma enforce_iteration_focus_off:
  assumes "focus_mode_active b gid = Some False"
  shows "enforce_iteration gid tk b
           = (if tk_cancelled tk then Some CancelledError else None, tk_world tk b, [EvSleep 5])"
  using assms
  by (simp add: enforce_iteration_def enforce_try_def loop_sleep_def is_Exception_def)

lemma enforce_iteration_focus_on:
  assumes "focus_mode_active b gid \<noteq> Some False"
    and "enforce_mute_members gid (tk_edit tk) (tk_members tk) b = (r, b1, ev)"
  shows "enforce_iteration gid tk b
           = (if r = Some CancelledError then (Some CancelledError, b1, ev)
              else (if tk_cancelled tk then Some CancelledError else None,
                    tk_world tk b1, ev @ [EvSleep 10]))"
proof -
  have on: "(case focus_mode_active b gid of None \<Rightarrow> True | Some f \<Rightarrow> f)"
    using assms(1) by (cases "focus_mode_active b gid") auto
  show ?thesis
  proof (cases r)
    case None
    with on assms(2) show ?thesis
      by (simp add: enforce_iteration_def enforce_try_def then_do_def loop_sleep_def
          is_Exception_def)
  next
    case (Some e)
    with on assms(2) show ?thesis
      by (cases e)
        (simp_all add: enforce_iteration_def enforce_try_def then_do_def loop_sleep_def
          is_Exception_def)
  qed
qed

lemma enforce_iteration_cancelled:
  assumes "tk_cancelled tk"
  shows "fst (enforce_iteration gid tk b) = Some CancelledError"
proof (cases "focus_mode_active b gid = Some False")
  case True
  from enforce_iteration_focus_off [OF this, of tk] assms show ?thesis by simp
next
  case False
  obtain r b1 ev where "enforce_mute_members gid (tk_edit tk) (tk_members tk) b = (r, b1, ev)"
    by (cases "enforce_mute_members gid (tk_edit tk) (tk_members tk) b") auto
  from enforce_iteration_focus_on [OF False this] assms show ?thesis by simp
qed

lemma enforce_loop_without_session:
  "active_sessions b gid = None \<Longrightarrow> enforce_loop gid tks b = (LoopReturned, b, [])"
  by (cases tks) simp_all

lemma enforce_loop_append:
  "enforce_loop gid (pre @ post) b
     = (if fst (enforce_loop gid pre b) = LoopRunning
        then (fst (enforce_loop gid post (fst (snd (enforce_loop gid pre b)))),
              fst (snd (enforce_loop gid post (fst (snd (enforce_loop gid pre b))))),
              snd (snd (enforce_loop gid pre b))
              @ snd (snd (enforce_loop gid post (fst (snd (enforce_loop gid pre b))))))
        else enforce_loop gid pre b)"
proof (induction pre arbitrary: b)
  case Nil
  then show ?case by (simp add: enforce_loop_without_session)
next
  case (Cons tk pre)
  show ?case
  proof (cases "active_sessions b gid = None")
    case True
    then show ?thesis by (simp add: enforce_loop_without_session)
  next
    case False
    obtain r1 b1 ev1 where it: "enforce_iteration gid tk b = (r1, b1, ev1)"
      by (cases "enforce_iteration gid tk b") auto
    show ?thesis
    proof (cases r1)
      case (Some e)
      with False it show ?thesis by simp
    next
      case None
      from False obtain s where s: "active_sessions b gid = Some s" by auto
      have step: "enforce_loop gid (tk # xs) b
          = (fst (enforce_loop gid xs b1), fst (snd (enforce_loop gid xs b1)),
             ev1 @ snd (snd (enforce_loop gid xs b1)))" for xs
        using s it None by (simp split: prod.splits)
      obtain r2 b2 ev2 where pre: "enforce_loop gid pre b1 = (r2, b2, ev2)"
        by (cases "enforce_loop gid pre b1") auto
      have whole: "enforce_loop gid ((tk # pre) @ post) b
          = (fst (enforce_loop gid (pre @ post) b1), fst (snd (enforce_loop gid (pre @ post) b1)),
             ev1 @ snd (snd (enforce_loop gid (pre @ post) b1)))"
        using step [of "pre @ post"] by simp
      show ?thesis
        unfolding whole step [of pre] Cons.IH [of b1] pre by simp
    qed
  qed
qed

lemma enforce_mute_members_head_raises:
  assumes "\<not> m_bot m" "m_voice m = Some False" "edit (m_id m) True = Some e"
  shows "enforce_mute_members gid edit (m # ms) b
           = (Some e, b, [EvEdit (m_id m) True ''Active study session enforces mute''])"
  using assms by simp

text \<open>
  Claim C6. The loop checks the registry before every iteration: without an active
  session for its community it returns at once, and a run over more ticks is the run over
  the first ticks followed, only if the loop is still running then, by the run over the
  rest, so that nothing is done after a check has found no session. A tick that cancels
  the task ends the loop with \<^verbatim>\<open>CancelledError\<close>. Nothing else raised in an
  iteration ends the loop: with focus mode on, whatever the muting pass raises (the
  answer of the platform to the first \<^verbatim>\<open>member.edit\<close> that fails) other than a
  cancellation, the iteration goes on to sleep 10 seconds and the loop goes on with the
  next check; with focus mode off the iteration sleeps 5 seconds. A loop that is still
  running has an active session, one that returned has none, and one that raised was
  cancelled by one of its ticks.
\<close>

theorem enforce_loop_ends_on_stop_or_cancel:
  "(active_sessions b gid \<noteq> None \<longrightarrow> enforce_loop gid [] b = (LoopRunning, b, []))
   \<and> (\<forall>tk.
         active_sessions b gid \<noteq> None \<and> tk_cancelled tk \<longrightarrow>
         enforce_loop gid (tk # tks) b
           = (LoopRaised CancelledError, snd (enforce_iteration gid tk b)))
   \<and> (\<forall>tk e.
         active_sessions b gid \<noteq> None \<and> fst (enforce_iteration gid tk b) = Some e \<longrightarrow>
         enforce_loop gid (tk # tks) b = (LoopRaised e, snd (enforce_iteration gid tk b)))
   \<and> (\<forall>tk.
         active_sessions b gid \<noteq> None \<and> fst (enforce_iteration gid tk b) = None \<longrightarrow>
         enforce_loop gid (tk # tks) b
           = (fst (enforce_loop gid tks (fst (snd (enforce_iteration gid tk b)))),
              fst (snd (enforce_loop gid tks (fst (snd (enforce_iteration gid tk b))))),
              snd (snd (enforce_iteration gid tk b))
              @ snd (snd (enforce_loop gid tks (fst (snd (enforce_iteration gid tk b)))))))
   \<and> (\<forall>tk.
         active_sessions b gid \<noteq> None \<and> fst (enforce_iteration gid tk b) = None
         \<and> active_sessions (fst (snd (enforce_iteration gid tk b))) gid = None \<longrightarrow>
         enforce_loop gid (tk # tks) b
           = (LoopReturned, fst (snd (enforce_iteration gid tk b)),
              snd (snd (enforce_iteration gid tk b))))
   \<and> (\<forall>pre post.
         enforce_loop gid (pre @ post) b
           = (if fst (enforce_loop gid pre b) = LoopRunning
              then (fst (enforce_loop gid post (fst (snd (enforce_loop gid pre b)))),
                    fst (snd (enforce_loop gid post (fst (snd (enforce_loop gid pre b))))),
                    snd (snd (enforce_loop gid pre b))
                    @ snd (snd (enforce_loop gid post (fst (snd (enforce_loop gid pre b))))))
              else enforce_loop gid pre b))
   \<and> (\<forall>tk b1.
         focus_mode_active b1 gid = Some False \<longrightarrow>
         enforce_iteration gid tk b1
           = (if tk_cancelled tk then Some CancelledError else None, tk_world tk b1,
              [EvSleep 5]))
   \<and> (\<forall>tk b1 r b2 ev.
         focus_mode_active b1 gid \<noteq> Some False
         \<and> enforce_mute_members gid (tk_edit tk) (tk_members tk) b1 = (r, b2, ev) \<longrightarrow>
         enforce_iteration gid tk b1
           = (if r = Some CancelledError then (Some CancelledError, b2, ev)
              else (if tk_cancelled tk then Some CancelledError else None,
                    tk_world tk b2, ev @ [EvSleep 10])))
   \<and> (\<forall>tk b1.
         tk_cancelled tk \<longrightarrow> fst (enforce_iteration gid tk b1) = Some CancelledError)
   \<and> (\<forall>edit m ms b1 e.
         \<not> m_bot m \<and> m_voice m = Some False \<and> edit (m_id m) True = Some e \<longrightarrow>
         enforce_mute_members gid edit (m # ms) b1
           = (Some e, b1, [EvEdit (m_id m) True ''Active study session enforces mute'']))
   \<and> (\<forall>tk m ms e.
         active_sessions b gid \<noteq> None \<and> focus_mode_active b gid \<noteq> Some False
         \<and> tk_members tk = m # ms \<and> \<not> m_bot m \<and> m_voice m = Some False
         \<and> tk_edit tk (m_id m) True = Some e \<and> e \<noteq> CancelledError
         \<and> \<not> tk_cancelled tk \<longrightarrow>
         enforce_loop gid (tk # tks) b
           = (fst (enforce_loop gid tks (tk_world tk b)),
              fst (snd (enforce_loop gid tks (tk_world tk b))),
              [EvEdit (m_id m) True ''Active study session enforces mute'', EvSleep 10]
              @ snd (snd (enforce_loop gid tks (tk_world tk b)))))
   \<and> (active_sessions b gid = None \<longrightarrow> enforce_loop gid tks b = (LoopReturned, b, []))
   \<and> (fst (enforce_loop gid tks b) = LoopReturned \<longrightarrow>
         active_sessions (fst (snd (enforce_loop gid tks b))) gid = None)
   \<and> (fst (enforce_loop gid tks b) = LoopRunning \<longrightarrow>
         active_sessions (fst (snd (enforce_loop gid tks b))) gid \<noteq> None)
   \<and> (\<forall>e. fst (enforce_loop gid tks b) = LoopRaised e \<longrightarrow>
         e = CancelledError
         \<and> (\<exists>tk\<in>set tks. tk_cancelled tk
               \<or> (\<exists>m\<in>set (tk_members tk). tk_edit tk (m_id m) True = Some CancelledError)))
   \<and> (\<forall>tk b1 e. fst (enforce_iteration gid tk b1) = Some e \<longrightarrow> e = CancelledError)
   \<and> (\<forall>tk b1. fst (enforce_iteration gid tk b1) = None \<longrightarrow>
         snd (snd (enforce_iteration gid tk b1)) \<noteq> []
         \<and> (last (snd (snd (enforce_iteration gid tk b1))) = EvSleep 10
            \<or> last (snd (snd (enforce_iteration gid tk b1))) = EvSleep 5))"
proof -
  have pair: "(fst x = a) = (\<exists>y. x = (a, y))" for x :: "'a \<times> 'b" and a
    by (cases x) auto
  have base: "active_sessions b gid \<noteq> None \<longrightarrow> enforce_loop gid [] b = (LoopRunning, b, [])"
    by simp
  have raised: "\<forall>tk e.
         active_sessions b gid \<noteq> None \<and> fst (enforce_iteration gid tk b) = Some e \<longrightarrow>
         enforce_loop gid (tk # tks) b = (LoopRaised e, snd (enforce_iteration gid tk b))"
  proof (intro allI impI, elim conjE)
    fix tk :: tick and e :: exn
    assume act: "active_sessions b gid \<noteq> None" and it: "fst (enforce_iteration gid tk b) = Some e"
    obtain b1 ev where "enforce_iteration gid tk b = (Some e, b1, ev)"
      using it by (metis prod.collapse)
    with act show "enforce_loop gid (tk # tks) b = (LoopRaised e, snd (enforce_iteration gid tk b))"
      by auto
  qed
  have cancel: "\<forall>tk.
         active_sessions b gid \<noteq> None \<and> tk_cancelled tk \<longrightarrow>
         enforce_loop gid (tk # tks) b
           = (LoopRaised CancelledError, snd (enforce_iteration gid tk b))"
    using raised enforce_iteration_cancelled by blast
  have "next": "\<forall>tk.
         active_sessions b gid \<noteq> None \<and> fst (enforce_iteration gid tk b) = None \<longrightarrow>
         enforce_loop gid (tk # tks) b
           = (fst (enforce_loop gid tks (fst (snd (enforce_iteration gid tk b)))),
              fst (snd (enforce_loop gid tks (fst (snd (enforce_iteration gid tk b))))),
              snd (snd (enforce_iteration gid tk b))
              @ snd (snd (enforce_loop gid tks (fst (snd (enforce_iteration gid tk b))))))"
  proof (intro allI impI, elim conjE)
    fix tk :: tick
    assume act: "active_sessions b gid \<noteq> None" and it: "fst (enforce_iteration gid tk b) = None"
    obtain b1 ev where "enforce_iteration gid tk b = (None, b1, ev)"
      using it by (metis prod.collapse)
    with act show "enforce_loop gid (tk # tks) b
           = (fst (enforce_loop gid tks (fst (snd (enforce_iteration gid tk b)))),
              fst (snd (enforce_loop gid tks (fst (snd (enforce_iteration gid tk b))))),
              snd (snd (enforce_iteration gid tk b))
              @ snd (snd (enforce_loop gid tks (fst (snd (enforce_iteration gid tk b))))))"
      by (auto split: prod.splits)
  qed
  have stops: "\<forall>tk.
         active_sessions b gid \<noteq> None \<and> fst (enforce_iteration gid tk b) = None
         \<and> active_sessions (fst (snd (enforce_iteration gid tk b))) gid = None \<longrightarrow>
         enforce_loop gid (tk # tks) b
           = (LoopReturned, fst (snd (enforce_iteration gid tk b)),
              snd (snd (enforce_iteration gid tk b)))"
    using "next" by (simp add: enforce_loop_without_session)
  have append: "\<forall>pre post.
         enforce_loop gid (pre @ post) b
           = (if fst (enforce_loop gid pre b) = LoopRunning
              then (fst (enforce_loop gid post (fst (snd (enforce_loop gid pre b)))),
                    fst (snd (enforce_loop gid post (fst (snd (enforce_loop gid pre b))))),
                    snd (snd (enforce_loop gid pre b))
                    @ snd (snd (enforce_loop gid post (fst (snd (enforce_loop gid pre b))))))
              else enforce_loop gid pre b)"
    by (intro allI) (rule enforce_loop_append)
  have off: "\<forall>tk b1.
         focus_mode_active b1 gid = Some False \<longrightarrow>
         enforce_iteration gid tk b1
           = (if tk_cancelled tk then Some CancelledError else None, tk_world tk b1,
              [EvSleep 5])"
    using enforce_iteration_focus_off by blast
  have on: "\<forall>tk b1 r b2 ev.
         focus_mode_active b1 gid \<noteq> Some False
         \<and> enforce_mute_members gid (tk_edit tk) (tk_members tk) b1 = (r, b2, ev) \<longrightarrow>
         enforce_iteration gid tk b1
           = (if r = Some CancelledError then (Some CancelledError, b2, ev)
              else (if tk_cancelled tk then Some CancelledError else None,
                    tk_world tk b2, ev @ [EvSleep 10]))"
    using enforce_iteration_focus_on by blast
  have itcancel: "\<forall>tk b1.
         tk_cancelled tk \<longrightarrow> fst (enforce_iteration gid tk b1) = Some CancelledError"
    using enforce_iteration_cancelled by blast
  have head: "\<forall>edit m ms b1 e.
         \<not> m_bot m \<and> m_voice m = Some False \<and> edit (m_id m) True = Some e \<longrightarrow>
         enforce_mute_members gid edit (m # ms) b1
           = (Some e, b1, [EvEdit (m_id m) True ''Active study session enforces mute''])"
    using enforce_mute_members_head_raises by blast
  have absorbed: "\<forall>tk m ms e.
         active_sessions b gid \<noteq> None \<and> focus_mode_active b gid \<noteq> Some False
         \<and> tk_members tk = m # ms \<and> \<not> m_bot m \<and> m_voice m = Some False
         \<and> tk_edit tk (m_id m) True = Some e \<and> e \<noteq> CancelledError
         \<and> \<not> tk_cancelled tk \<longrightarrow>
         enforce_loop gid (tk # tks) b
           = (fst (enforce_loop gid tks (tk_world tk b)),
              fst (snd (enforce_loop gid tks (tk_world tk b))),
              [EvEdit (m_id m) True ''Active study session enforces mute'', EvSleep 10]
              @ snd (snd (enforce_loop gid tks (tk_world tk b))))"
  proof (intro allI impI, elim conjE)
    fix tk :: tick and m :: member and ms :: "member list" and e :: exn
    assume act: "active_sessions b gid \<noteq> None"
      and foc: "focus_mode_active b gid \<noteq> Some False"
      and mem: "tk_members tk = m # ms" "\<not> m_bot m" "m_voice m = Some False"
      and ed: "tk_edit tk (m_id m) True = Some e" "e \<noteq> CancelledError"
      and nc: "\<not> tk_cancelled tk"
    have pass: "enforce_mute_members gid (tk_edit tk) (tk_members tk) b
        = (Some e, b, [EvEdit (m_id m) True ''Active study session enforces mute''])"
      unfolding mem(1) using mem(2,3) ed(1) by (rule enforce_mute_members_head_raises)
    have it: "enforce_iteration gid tk b
        = (None, tk_world tk b,
           [EvEdit (m_id m) True ''Active study session enforces mute'', EvSleep 10])"
      using enforce_iteration_focus_on [OF foc pass] ed(2) nc by simp
    from act it show "enforce_loop gid (tk # tks) b
           = (fst (enforce_loop gid tks (tk_world tk b)),
              fst (snd (enforce_loop gid tks (tk_world tk b))),
              [EvEdit (m_id m) True ''Active study session enforces mute'', EvSleep 10]
              @ snd (snd (enforce_loop gid tks (tk_world tk b))))"
      by (auto split: prod.splits)
  qed
  note outcomes = enforce_loop_outcomes [of b gid tks]
  show ?thesis
    by (rule conjI [OF base conjI [OF cancel conjI [OF raised conjI [OF "next" conjI [OF stops conjI [OF append conjI [OF off conjI [OF on conjI [OF itcancel conjI [OF head conjI [OF absorbed outcomes]]]]]]]]]]])
qed

theorem enforce_loop_ends_on_stop_or_cancel_witness:
  "active_sessions initial_bot 7 = None
   \<and> enforce_loop 7
        [\<lparr>tk_members = [\<lparr>m_id = 10, m_bot = False, m_voice = Some False\<rparr>],
          tk_edit = (\<lambda>uid mute. Some HTTPException), tk_cancelled = False,
          tk_world = (\<lambda>b. b)\<rparr>]
        initial_bot
      = (LoopReturned, initial_bot, [])
   \<and> active_sessions
        (initial_bot\<lparr>active_sessions :=
           [7 \<mapsto> \<lparr>guild_id = 7, voice_channel_id = 5,
                   started_at = \<lparr>dt_local = 0, dt_offset = 0\<rparr>,
                   enforce_mute_task = Some (EnforceMuteTask 7)\<rparr>],
           enforced_user_ids := [7 \<mapsto> {}]\<rparr>) 7 \<noteq> None
   \<and> tk_cancelled
        \<lparr>tk_members = [], tk_edit = (\<lambda>uid mute. None), tk_cancelled = True,
          tk_world = (\<lambda>b. b)\<rparr>
   \<and> fst (enforce_loop 7
        [\<lparr>tk_members = [], tk_edit = (\<lambda>uid mute. None), tk_cancelled = True,
          tk_world = (\<lambda>b. b)\<rparr>,
         \<lparr>tk_members = [\<lparr>m_id = 10, m_bot = False, m_voice = Some False\<rparr>],
          tk_edit = (\<lambda>uid mute. Some HTTPException), tk_cancelled = False,
          tk_world = (\<lambda>b. b)\<rparr>]
        (initial_bot\<lparr>active_sessions :=
           [7 \<mapsto> \<lparr>guild_id = 7, voice_channel_id = 5,
                   started_at = \<lparr>dt_local = 0, dt_offset = 0\<rparr>,
                   enforce_mute_task = Some (EnforceMuteTask 7)\<rparr>],
           enforced_user_ids := [7 \<mapsto> {}]\<rparr>))
      = LoopRaised CancelledError
   \<and> enforce_loop 7
        [\<lparr>tk_members = [\<lparr>m_id = 10, m_bot = False, m_voice = Some False\<rparr>],
          tk_edit = (\<lambda>uid mute. Some HTTPException), tk_cancelled = False,
          tk_world = (\<lambda>b. b)\<rparr>,
         \<lparr>tk_members = [], tk_edit = (\<lambda>uid mute. None), tk_cancelled = True,
          tk_world = (\<lambda>b. b)\<rparr>]
        (initial_bot\<lparr>active_sessions :=
           [7 \<mapsto> \<lparr>guild_id = 7, voice_channel_id = 5,
                   started_at = \<lparr>dt_local = 0, dt_offset = 0\<rparr>,
                   enforce_mute_task = Some (EnforceMuteTask 7)\<rparr>],
           enforced_user_ids := [7 \<mapsto> {}]\<rparr>)
      = (LoopRaised CancelledError,
         (initial_bot\<lparr>active_sessions :=
           [7 \<mapsto> \<lparr>guild_id = 7, voice_channel_id = 5,
                   started_at = \<lparr>dt_local = 0, dt_offset = 0\<rparr>,
                   enforce_mute_task = Some (EnforceMuteTask 7)\<rparr>],
           enforced_user_ids := [7 \<mapsto> {}]\<rparr>),
         [EvEdit 10 True ''Active study session enforces mute'', EvSleep 10, EvSleep 10])
   \<and> enforce_loop 7
        [\<lparr>tk_members = [\<lparr>m_id = 10, m_bot = False, m_voice = Some False\<rparr>],
          tk_edit = (\<lambda>uid mute. Some Forbidden), tk_cancelled = False,
          tk_world = (\<lambda>b. b\<lparr>active_sessions := Map.empty\<rparr>)\<rparr>,
         \<lparr>tk_members = [\<lparr>m_id = 10, m_bot = False, m_voice = Some False\<rparr>],
          tk_edit = (\<lambda>uid mute. Some HTTPException), tk_cancelled = False,
          tk_world = (\<lambda>b. b)\<rparr>]
        (initial_bot\<lparr>active_sessions :=
           [7 \<mapsto> \<lparr>guild_id = 7, voice_channel_id = 5,
                   started_at = \<lparr>dt_local = 0, dt_offset = 0\<rparr>,
                   enforce_mute_task = Some (EnforceMuteTask 7)\<rparr>],
           enforced_user_ids := [7 \<mapsto> {}]\<rparr>)
      = (LoopReturned,
         initial_bot\<lparr>active_sessions := Map.empty, enforced_user_ids := [7 \<mapsto> {}]\<rparr>,
         [EvEdit 10 True ''Active study session enforces mute'', EvSleep 10])
   \<and> fst (enforce_loop 7
        [\<lparr>tk_members = [\<lparr>m_id = 10, m_bot = False, m_voice = Some False\<rparr>],
          tk_edit = (\<lambda>uid mute. Some HTTPException), tk_cancelled = False,
          tk_world = (\<lambda>b. b)\<rparr>]
        (initial_bot\<lparr>active_sessions :=
           [7 \<mapsto> \<lparr>guild_id = 7, voice_channel_id = 5,
                   started_at = \<lparr>dt_local = 0, dt_offset = 0\<rparr>,
                   enforce_mute_task = Some (EnforceMuteTask 7)\<rparr>],
           enforced_user_ids := [7 \<mapsto> {}]\<rparr>))
      = LoopRunning
   \<and> active_sessions (fst (snd (enforce_loop 7
        [\<lparr>tk_members = [\<lparr>m_id = 10, m_bot = False, m_voice = Some False\<rparr>],
          tk_edit = (\<lambda>uid mute. Some HTTPException), tk_cancelled = False,
          tk_world = (\<lambda>b. b)\<rparr>]
        (initial_bot\<lparr>active_sessions :=
           [7 \<mapsto> \<lparr>guild_id = 7, voice_channel_id = 5,
                   started_at = \<lparr>dt_local = 0, dt_offset = 0\<rparr>,
                   enforce_mute_task = Some (EnforceMuteTask 7)\<rparr>],
           enforced_user_ids := [7 \<mapsto> {}]\<rparr>)))) 7 \<noteq> None"
proof -
  let ?a = "\<lparr>m_id = 10, m_bot = False, m_voice = Some False\<rparr>"
  let ?tk1 = "\<lparr>tk_members = [?a], tk_edit = (\<lambda>uid mute. Some HTTPException),
      tk_cancelled = False, tk_world = (\<lambda>b. b)\<rparr>"
  let ?tk2 = "\<lparr>tk_members = [?a], tk_edit = (\<lambda>uid mute. Some Forbidden),
      tk_cancelled = False, tk_world = (\<lambda>b. b\<lparr>active_sessions := Map.empty\<rparr>)\<rparr>"
  let ?tk3 = "\<lparr>tk_members = [], tk_edit = (\<lambda>uid mute. None), tk_cancelled = True,
      tk_world = (\<lambda>b. b)\<rparr>"
  let ?b = "initial_bot\<lparr>active_sessions :=
      [7 \<mapsto> \<lparr>guild_id = 7, voice_channel_id = 5,
              started_at = \<lparr>dt_local = 0, dt_offset = 0\<rparr>,
              enforce_mute_task = Some (EnforceMuteTask 7)\<rparr>],
      enforced_user_ids := [7 \<mapsto> {}]\<rparr>"
  let ?gone = "initial_bot\<lparr>active_sessions := Map.empty, enforced_user_ids := [7 \<mapsto> {}]\<rparr>"
  have idle: "active_sessions initial_bot 7 = None"
    by (simp add: initial_bot_def)
  have active: "active_sessions ?b 7 \<noteq> None" by simp
  have focus: "focus_mode_active ?b 7 \<noteq> Some False" by (simp add: initial_bot_def)
  have cancelled: "tk_cancelled ?tk3" by simp
  have quiet: "\<not> tk_cancelled ?tk1" "\<not> tk_cancelled ?tk2" by simp_all
  have world: "tk_world ?tk1 ?b = ?b" "tk_world ?tk2 ?b = ?gone"
    by simp_all
  have gone: "active_sessions ?gone 7 = None" by simp
  have it3: "snd (enforce_iteration 7 ?tk3 ?b) = (?b, [EvSleep 10])"
    by (simp add: enforce_iteration_def enforce_try_def then_do_def loop_sleep_def
        is_Exception_def initial_bot_def)
  note one = enforce_loop_ends_on_stop_or_cancel [of ?b 7 "[]"]
  note two = enforce_loop_ends_on_stop_or_cancel [of ?b 7 "[?tk1]"]
  note three = enforce_loop_ends_on_stop_or_cancel [of ?b 7 "[?tk3]"]
  note none = enforce_loop_ends_on_stop_or_cancel [of initial_bot 7 "[?tk1]"]
  note ends = enforce_loop_ends_on_stop_or_cancel [of ?gone 7 "[?tk1]"]
  from none have "active_sessions initial_bot 7 = None \<longrightarrow>
      enforce_loop 7 [?tk1] initial_bot = (LoopReturned, initial_bot, [])"
    by (elim conjE)
  with idle have c1: "enforce_loop 7 [?tk1] initial_bot = (LoopReturned, initial_bot, [])"
    by blast
  from one have "active_sessions ?b 7 \<noteq> None \<longrightarrow> enforce_loop 7 [] ?b = (LoopRunning, ?b, [])"
    by (elim conjE)
  with active have base: "enforce_loop 7 [] ?b = (LoopRunning, ?b, [])"
    by blast
  from one have "\<forall>tk. active_sessions ?b 7 \<noteq> None \<and> tk_cancelled tk \<longrightarrow>
      enforce_loop 7 (tk # []) ?b = (LoopRaised CancelledError, snd (enforce_iteration 7 tk ?b))"
    by (elim conjE)
  from this [rule_format, of ?tk3] active cancelled
  have "enforce_loop 7 [?tk3] ?b = (LoopRaised CancelledError, snd (enforce_iteration 7 ?tk3 ?b))"
    by blast
  then have last: "enforce_loop 7 [?tk3] ?b = (LoopRaised CancelledError, ?b, [EvSleep 10])"
    unfolding it3 .
  from two have "\<forall>tk. active_sessions ?b 7 \<noteq> None \<and> tk_cancelled tk \<longrightarrow>
      enforce_loop 7 (tk # [?tk1]) ?b = (LoopRaised CancelledError, snd (enforce_iteration 7 tk ?b))"
    by (elim conjE)
  from this [rule_format, of ?tk3] active cancelled
  have "enforce_loop 7 [?tk3, ?tk1] ?b
      = (LoopRaised CancelledError, snd (enforce_iteration 7 ?tk3 ?b))"
    by blast
  then have c2: "fst (enforce_loop 7 [?tk3, ?tk1] ?b) = LoopRaised CancelledError"
    by (simp del: enforce_loop.simps)
  from three have "\<forall>tk m ms e.
      active_sessions ?b 7 \<noteq> None \<and> focus_mode_active ?b 7 \<noteq> Some False
      \<and> tk_members tk = m # ms \<and> \<not> m_bot m \<and> m_voice m = Some False
      \<and> tk_edit tk (m_id m) True = Some e \<and> e \<noteq> CancelledError
      \<and> \<not> tk_cancelled tk \<longrightarrow>
      enforce_loop 7 (tk # [?tk3]) ?b
        = (fst (enforce_loop 7 [?tk3] (tk_world tk ?b)),
           fst (snd (enforce_loop 7 [?tk3] (tk_world tk ?b))),
           [EvEdit (m_id m) True ''Active study session enforces mute'', EvSleep 10]
           @ snd (snd (enforce_loop 7 [?tk3] (tk_world tk ?b))))"
    by (elim conjE)
  from this [rule_format, of ?tk1 ?a "[]" HTTPException] active focus
  have "enforce_loop 7 [?tk1, ?tk3] ?b
      = (fst (enforce_loop 7 [?tk3] (tk_world ?tk1 ?b)),
         fst (snd (enforce_loop 7 [?tk3] (tk_world ?tk1 ?b))),
         [EvEdit (m_id ?a) True ''Active study session enforces mute'', EvSleep 10]
         @ snd (snd (enforce_loop 7 [?tk3] (tk_world ?tk1 ?b))))"
    by (simp del: enforce_loop.simps)
  then have c3: "enforce_loop 7 [?tk1, ?tk3] ?b
      = (LoopRaised CancelledError, ?b, [EvEdit 10 True ''Active study session enforces mute'', EvSleep 10, EvSleep 10])"
    unfolding world last by simp
  from ends have "active_sessions ?gone 7 = None \<longrightarrow>
      enforce_loop 7 [?tk1] ?gone = (LoopReturned, ?gone, [])"
    by (elim conjE)
  with gone have after: "enforce_loop 7 [?tk1] ?gone = (LoopReturned, ?gone, [])"
    by blast
  from two have "\<forall>tk m ms e.
      active_sessions ?b 7 \<noteq> None \<and> focus_mode_active ?b 7 \<noteq> Some False
      \<and> tk_members tk = m # ms \<and> \<not> m_bot m \<and> m_voice m = Some False
      \<and> tk_edit tk (m_id m) True = Some e \<and> e \<noteq> CancelledError
      \<and> \<not> tk_cancelled tk \<longrightarrow>
      enforce_loop 7 (tk # [?tk1]) ?b
        = (fst (enforce_loop 7 [?tk1] (tk_world tk ?b)),
           fst (snd (enforce_loop 7 [?tk1] (tk_world tk ?b))),
           [EvEdit (m_id m) True ''Active study session enforces mute'', EvSleep 10]
           @ snd (snd (enforce_loop 7 [?tk1] (tk_world tk ?b))))"
    by (elim conjE)
  from this [rule_format, of ?tk2 ?a "[]" Forbidden] active focus
  have "enforce_loop 7 [?tk2, ?tk1] ?b
      = (fst (enforce_loop 7 [?tk1] (tk_world ?tk2 ?b)),
         fst (snd (enforce_loop 7 [?tk1] (tk_world ?tk2 ?b))),
         [EvEdit (m_id ?a) True ''Active study session enforces mute'', EvSleep 10]
         @ snd (snd (enforce_loop 7 [?tk1] (tk_world ?tk2 ?b))))"
    by (simp del: enforce_loop.simps)
  then have c4: "enforce_loop 7 [?tk2, ?tk1] ?b
      = (LoopReturned, ?gone, [EvEdit 10 True ''Active study session enforces mute'', EvSleep 10])"
    unfolding world after by simp
  from one have "\<forall>tk m ms e.
      active_sessions ?b 7 \<noteq> None \<and> focus_mode_active ?b 7 \<noteq> Some False
      \<and> tk_members tk = m # ms \<and> \<not> m_bot m \<and> m_voice m = Some False
      \<and> tk_edit tk (m_id m) True = Some e \<and> e \<noteq> CancelledError
      \<and> \<not> tk_cancelled tk \<longrightarrow>
      enforce_loop 7 (tk # []) ?b
        = (fst (enforce_loop 7 [] (tk_world tk ?b)),
           fst (snd (enforce_loop 7 [] (tk_world tk ?b))),
           [EvEdit (m_id m) True ''Active study session enforces mute'', EvSleep 10]
           @ snd (snd (enforce_loop 7 [] (tk_world tk ?b))))"
    by (elim conjE)
  from this [rule_format, of ?tk1 ?a "[]" HTTPException] active focus
  have "enforce_loop 7 [?tk1] ?b
      = (fst (enforce_loop 7 [] (tk_world ?tk1 ?b)),
         fst (snd (enforce_loop 7 [] (tk_world ?tk1 ?b))),
         [EvEdit (m_id ?a) True ''Active study session enforces mute'', EvSleep 10]
         @ snd (snd (enforce_loop 7 [] (tk_world ?tk1 ?b))))"
    by (simp del: enforce_loop.simps)
  then have run1: "enforce_loop 7 [?tk1] ?b
      = (LoopRunning, ?b, [EvEdit 10 True ''Active study session enforces mute'', EvSleep 10])"
    unfolding world base by simp
  then have c5: "fst (enforce_loop 7 [?tk1] ?b) = LoopRunning" by simp
  from two have "fst (enforce_loop 7 [?tk1] ?b) = LoopRunning \<longrightarrow>
      active_sessions (fst (snd (enforce_loop 7 [?tk1] ?b))) 7 \<noteq> None"
    by (elim conjE)
  with c5 have c6: "active_sessions (fst (snd (enforce_loop 7 [?tk1] ?b))) 7 \<noteq> None"
    by blast
  show ?thesis
    using idle c1 active cancelled c2 c3 c4 c5 c6 by (intro conjI)
qed

text \<open>
  Claim C5, at a tick where the first member cannot be muted: the
  \<^verbatim>\<open>discord.Forbidden\<close> of member 10 leaves the \<^verbatim>\<open>for\<close> loop of
  \<^verbatim>\<open>enforce_channel_mute\<close>, whose \<^verbatim>\<open>try\<close> is around the whole loop, the handler
  sleeps, and member 11, who is not a bot and not muted, is not attempted in that tick.
  The loop of \<^verbatim>\<open>set_focus_mode\<close> over the same members, with the same answers of
  the platform, attempts both.
\<close>

theorem enforce_iteration_forbidden_skips_rest:
  "enforce_iteration 7
     \<lparr>tk_members = [\<lparr>m_id = 10, m_bot = False, m_voice = Some False\<rparr>,
                    \<lparr>m_id = 11, m_bot = False, m_voice = Some False\<rparr>],
      tk_edit = (\<lambda>uid mute. if uid = 10 then Some Forbidden else None),
      tk_cancelled = False, tk_world = (\<lambda>b. b)\<rparr>
     (initial_bot\<lparr>active_sessions :=
        [7 \<mapsto> \<lparr>guild_id = 7, voice_channel_id = 5,
                started_at = \<lparr>dt_local = 0, dt_offset = 0\<rparr>,
                enforce_mute_task = Some (EnforceMuteTask 7)\<rparr>],
        enforced_user_ids := [7 \<mapsto> {}]\<rparr>)
   = (None,
      initial_bot\<lparr>active_sessions :=
        [7 \<mapsto> \<lparr>guild_id = 7, voice_channel_id = 5,
                started_at = \<lparr>dt_local = 0, dt_offset = 0\<rparr>,
                enforce_mute_task = Some (EnforceMuteTask 7)\<rparr>],
        enforced_user_ids := [7 \<mapsto> {}]\<rparr>,
      [EvEdit 10 True ''Active study session enforces mute'', EvSleep 10])
   \<and> snd (snd (focus_mute_members 7
        (\<lambda>uid mute. if uid = 10 then Some Forbidden else None)
        [\<lparr>m_id = 10, m_bot = False, m_voice = Some False\<rparr>,
         \<lparr>m_id = 11, m_bot = False, m_voice = Some False\<rparr>]
        (initial_bot\<lparr>active_sessions :=
           [7 \<mapsto> \<lparr>guild_id = 7, voice_channel_id = 5,
                   started_at = \<lparr>dt_local = 0, dt_offset = 0\<rparr>,
                   enforce_mute_task = Some (EnforceMuteTask 7)\<rparr>],
           enforced_user_ids := [7 \<mapsto> {}]\<rparr>)))
     = [EvEdit 10 True ''Pomodoro focus mode started'',
        EvEdit 11 True ''Pomodoro focus mode started'']"
  by (simp add: enforce_iteration_def enforce_try_def then_do_def loop_sleep_def
      is_Exception_def initial_bot_def add_enforced_def enforced_of_def)


section \<open>Two calls of stop\<close>

lemma unmute_member_no_close:
  "unmute_member gid reason edit m b = (r, ev) \<Longrightarrow> filter is_close ev = []"
  by (auto simp: unmute_member_def split: if_splits option.splits)

lemma stop_step_entry:
  "stop_step g reason now edit StopEntry b = (pc', b', ev) \<Longrightarrow>
     active_sessions b' (g_id g) = None \<and> ev = []
     \<and> (active_sessions b (g_id g) = None \<longrightarrow> pc' = StopDone (Inr None) \<and> b' = b)
     \<and> (active_sessions b (g_id g) \<noteq> None \<longrightarrow> pc_phase pc' = 2)"
  by (auto simp: Let_def split: option.splits)

lemma stop_step_later:
  assumes "stop_step g reason now edit pc b = (pc', b', ev)" and "pc \<noteq> StopEntry"
  shows "active_sessions b' = active_sessions b \<and> pc' \<noteq> StopEntry
     \<and> length (filter is_close ev) + (if pc_phase pc' = 0 then 0 else 1)
         \<le> (if pc_phase pc = 0 then 0 else 1)"
proof (cases pc)
  case StopEntry
  with assms show ?thesis by simp
next
  case (StopAccrue session ended_at d uids)
  with assms show ?thesis
    by (cases uids) (auto simp: accrue_user_time_frame split: option.splits channel.splits)
next
  case (StopUnmute session ended_at d ms)
  show ?thesis
  proof (cases ms)
    case Nil
    with assms StopUnmute show ?thesis
      by (auto simp: Let_def split: option.splits)
  next
    case (Cons m ms')
    obtain r evm where um: "unmute_member (g_id g) reason edit m b = (r, evm)"
      by (cases "unmute_member (g_id g) reason edit m b") auto
    from unmute_member_no_close [OF um] assms StopUnmute Cons um show ?thesis
      by (cases r) auto
  qed
next
  case (StopDone r)
  with assms show ?thesis by auto
qed

lemma stop_interleave_invariant:
  assumes "stop_interleave gid c c'" and "stop_inv gid c"
  shows "stop_inv gid c'"
  using assms
proof (induction rule: stop_interleave.induct)
  case il_start
  then show ?case by simp
next
  case (il_first reason1 pc1 call2 b ev g now edit pc1' b' ev')
  obtain reason2 pc2 where call2: "call2 = (reason2, pc2)" by (cases call2) auto
  from il_first call2 have inv: "stop_inv gid ((reason1, pc1), (reason2, pc2), b, ev)" by simp
  then have "pc1 \<noteq> StopEntry" by simp
  from stop_step_later [OF il_first.hyps(3) this] inv il_first.hyps(2) call2
  show ?case by auto
next
  case (il_second call1 reason2 pc2 b ev g now edit pc2' b' ev')
  obtain reason1 pc1 where call1: "call1 = (reason1, pc1)" by (cases call1) auto
  from il_second call1 have inv: "stop_inv gid ((reason1, pc1), (reason2, pc2), b, ev)" by simp
  then consider "pc2 = StopEntry" | "pc2 = StopDone (Inr None)" by auto
  then show ?case
  proof cases
    case 1
    with inv il_second.hyps(2) have "active_sessions b (g_id g) = None" by simp
    with stop_step_entry [OF il_second.hyps(3) [unfolded 1]] inv call1 il_second.hyps(2)
    show ?thesis by auto
  next
    case 2
    with il_second.hyps(3) inv call1 show ?thesis by auto
  qed
next
  case (il_other call1 call2 b ev b')
  obtain reason1 pc1 where call1: "call1 = (reason1, pc1)" by (cases call1) auto
  obtain reason2 pc2 where call2: "call2 = (reason2, pc2)" by (cases call2) auto
  from il_other call1 call2 show ?case by simp
qed

text \<open>
  Claim C10. The first step of \<^verbatim>\<open>stop_session\<close>, before any await, removes the
  community's entry from the registry. When a first call has taken that step and found a
  session, then in every configuration that the two calls and the other tasks reach, in
  any interleaving, the registry still has no entry for the community; the second call
  has not run yet or has returned \<open>None\<close>, and a call of \<^verbatim>\<open>stop_session\<close> made at
  that point returns \<open>None\<close> and changes nothing; and at most one session record has
  been closed.
\<close>

theorem stop_session_pops_registry_first:
  assumes "stop_step g reason1 now edit StopEntry b = (pc1, b1, ev1)"
    and "active_sessions b (g_id g) \<noteq> None"
    and "stop_interleave (g_id g) ((reason1, pc1), (reason2, StopEntry), b1, ev1)
           ((reason1', pc1'), (reason2', pc2'), b', ev')"
  shows "active_sessions b1 (g_id g) = None
     \<and> active_sessions b' (g_id g) = None
     \<and> (pc2' = StopEntry \<or> pc2' = StopDone (Inr None))
     \<and> (\<forall>g' now' edit'. g_id g' = g_id g \<longrightarrow>
           stop_session g' reason2 now' edit' b' = (Inr None, b', []))
     \<and> length (filter is_close ev') \<le> 1"
proof -
  from stop_step_entry [OF assms(1)] assms(2)
  have first: "active_sessions b1 (g_id g) = None" "ev1 = []" "pc_phase pc1 = 2"
    by simp_all
  then have "pc1 \<noteq> StopEntry" by auto
  with first have "stop_inv (g_id g) ((reason1, pc1), (reason2, StopEntry), b1, ev1)"
    by simp
  from stop_interleave_invariant [OF assms(3) this]
  have inv: "active_sessions b' (g_id g) = None"
    "pc2' = StopEntry \<or> pc2' = StopDone (Inr None)"
    "length (filter is_close ev') \<le> 1"
    by (simp_all split: if_splits)
  have "stop_session g' reason2 now' edit' b' = (Inr None, b', [])"
    if "g_id g' = g_id g" for g' now' edit'
    using that inv(1) by (simp add: stop_session_def)
  with first inv show ?thesis by blast
qed

theorem stop_session_pops_registry_first_witness:
  "active_sessions
     (initial_bot\<lparr>active_sessions :=
        [7 \<mapsto> \<lparr>guild_id = 7, voice_channel_id = 5,
                started_at = \<lparr>dt_local = 0, dt_offset = 0\<rparr>,
                enforce_mute_task = Some (EnforceMuteTask 7)\<rparr>],
        active_session_record_id := [7 \<mapsto> 3]\<rparr>) 7 \<noteq> None
   \<and> stop_interleave 7
       ((''Study session ended'',
         fst (stop_step \<lparr>g_id = 7, g_channels = [VoiceChannel 5 []]\<rparr> ''Study session ended''
                \<lparr>dt_local = 60000000, dt_offset = 0\<rparr> (\<lambda>uid mute. None) StopEntry
                (initial_bot\<lparr>active_sessions :=
                   [7 \<mapsto> \<lparr>guild_id = 7, voice_channel_id = 5,
                           started_at = \<lparr>dt_local = 0, dt_offset = 0\<rparr>,
                           enforce_mute_task = Some (EnforceMuteTask 7)\<rparr>],
                   active_session_record_id := [7 \<mapsto> 3]\<rparr>))),
        (''Pomodoro stopped'', StopEntry),
        initial_bot\<lparr>active_session_record_id := [7 \<mapsto> 3]\<rparr>, [])
       ((''Study session ended'',
         fst (stop_step \<lparr>g_id = 7, g_channels = [VoiceChannel 5 []]\<rparr> ''Study session ended''
                \<lparr>dt_local = 60000000, dt_offset = 0\<rparr> (\<lambda>uid mute. None) StopEntry
                (initial_bot\<lparr>active_sessions :=
                   [7 \<mapsto> \<lparr>guild_id = 7, voice_channel_id = 5,
                           started_at = \<lparr>dt_local = 0, dt_offset = 0\<rparr>,
                           enforce_mute_task = Some (EnforceMuteTask 7)\<rparr>],
                   active_session_record_id := [7 \<mapsto> 3]\<rparr>))),
        (''Pomodoro stopped'', StopDone (Inr None)),
        initial_bot\<lparr>active_session_record_id := [7 \<mapsto> 3]\<rparr>, [])
   \<and> active_sessions (initial_bot\<lparr>active_session_record_id := [7 \<mapsto> 3]\<rparr>) 7 = None
   \<and> stop_session \<lparr>g_id = 7, g_channels = [VoiceChannel 5 []]\<rparr> ''Pomodoro stopped''
        \<lparr>dt_local = 90000000, dt_offset = 0\<rparr> (\<lambda>uid mute. None)
        (initial_bot\<lparr>active_session_record_id := [7 \<mapsto> 3]\<rparr>)
      = (Inr None, initial_bot\<lparr>active_session_record_id := [7 \<mapsto> 3]\<rparr>, [])"
proof -
  let ?s = "\<lparr>guild_id = 7, voice_channel_id = 5,
      started_at = \<lparr>dt_local = 0, dt_offset = 0\<rparr>,
      enforce_mute_task = Some (EnforceMuteTask 7)\<rparr>"
  let ?b = "initial_bot\<lparr>active_sessions := [7 \<mapsto> ?s],
      active_session_record_id := [7 \<mapsto> 3]\<rparr>"
  let ?b1 = "initial_bot\<lparr>active_session_record_id := [7 \<mapsto> 3]\<rparr>"
  let ?g = "\<lparr>g_id = 7, g_channels = [VoiceChannel 5 []]\<rparr>"
  let ?now = "\<lparr>dt_local = 60000000, dt_offset = 0\<rparr>"
  let ?edit = "\<lambda>(uid :: nat) (mute :: bool). None :: exn option"
  let ?pc1 = "fst (stop_step ?g ''Study session ended'' ?now ?edit StopEntry ?b)"
  have active: "active_sessions ?b (g_id ?g) \<noteq> None" by simp
  have entered: "stop_step ?g ''Study session ended'' ?now ?edit StopEntry ?b = (?pc1, ?b1, [])"
    by (simp add: Let_def initial_bot_def)
  have second: "stop_step ?g ''Pomodoro stopped'' ?now ?edit StopEntry ?b1
      = (StopDone (Inr None), ?b1, [])"
    by (simp add: initial_bot_def)
  have "stop_interleave 7 ((''Study session ended'', ?pc1), (''Pomodoro stopped'', StopEntry), ?b1, [])
      ((''Study session ended'', ?pc1), (''Pomodoro stopped'', StopDone (Inr None)), ?b1, [] @ [])"
    by (rule il_second [OF il_start _ second]) simp
  then have reach: "stop_interleave (g_id ?g)
      ((''Study session ended'', ?pc1), (''Pomodoro stopped'', StopEntry), ?b1, [])
      ((''Study session ended'', ?pc1), (''Pomodoro stopped'', StopDone (Inr None)), ?b1, [])"
    by simp
  note main = stop_session_pops_registry_first [OF entered active reach]
  from main have gone: "active_sessions ?b1 (g_id ?g) = None" by blast
  from main have "\<forall>g' now' edit'. g_id g' = g_id ?g \<longrightarrow>
      stop_session g' ''Pomodoro stopped'' now' edit' ?b1 = (Inr None, ?b1, [])"
    by blast
  then have again: "stop_session ?g ''Pomodoro stopped'' \<lparr>dt_local = 90000000, dt_offset = 0\<rparr>
      ?edit ?b1 = (Inr None, ?b1, [])"
    by blast
  from active gone again reach show ?thesis by simp
qed


section \<open>The announcements of a Pomodoro run\<close>

lemma then_do_None:
  "then_do r f = (None, b', ev) \<longleftrightarrow>
     (\<exists>b1 ev1 ev2. r = (None, b1, ev1) \<and> f b1 = (None, b', ev2) \<and> ev = ev1 @ ev2)"
  by (auto simp: then_do_def split: prod.splits option.splits)

lemma accrue_users_sessions:
  "active_sessions (accrue_users gid uids now b) = active_sessions b"
  unfolding accrue_users_def
  by (induction uids arbitrary: b) (simp_all add: accrue_user_time_frame)

lemma focus_mute_members_quiet:
  "focus_mute_members gid edit ms b = (r, b', ev) \<Longrightarrow>
     active_sessions b' = active_sessions b \<and> filter is_send ev = []"
proof (induction ms arbitrary: b r b' ev)
  case Nil
  then show ?case by simp
next
  case (Cons m ms)
  then show ?case
    by (fastforce simp: add_enforced_def split: if_splits option.splits prod.splits)
qed

lemma unmute_member_no_send:
  "unmute_member gid reason edit m b = (r, ev) \<Longrightarrow> filter is_send ev = []"
  by (auto simp: unmute_member_def split: if_splits option.splits)

lemma unmute_members_quiet:
  "unmute_members gid reason edit ms b = (r, b', ev) \<Longrightarrow>
     b' = b \<and> filter is_send ev = []"
proof (induction ms arbitrary: r b' ev)
  case Nil
  then show ?case by simp
next
  case (Cons m ms)
  obtain r1 ev1 where um: "unmute_member gid reason edit m b = (r1, ev1)"
    by (cases "unmute_member gid reason edit m b") auto
  show ?case
  proof (cases r1)
    case (Some e)
    with Cons.prems um unmute_member_no_send [OF um] show ?thesis by auto
  next
    case None
    obtain r2 b2 ev2 where rest: "unmute_members gid reason edit ms b = (r2, b2, ev2)"
      by (cases "unmute_members gid reason edit ms b") auto
    from Cons.IH [OF rest] Cons.prems um None rest unmute_member_no_send [OF um]
    show ?thesis by auto
  qed
qed

lemma set_focus_mode_quiet:
  assumes "set_focus_mode g enabled now edit b = (r, b', ev)"
  shows "active_sessions b' = active_sessions b \<and> filter is_send ev = []"
proof (cases "active_sessions b (g_id g)")
  case None
  with assms show ?thesis by (simp add: set_focus_mode_def)
next
  case (Some session)
  show ?thesis
  proof (cases "get_channel g (voice_channel_id session)")
    case None
    with assms Some show ?thesis by (simp add: set_focus_mode_def)
  next
    case (Some ch)
    note ch = this
    show ?thesis
    proof (cases ch)
      case (VoiceChannel cid ms)
      show ?thesis
      proof (cases enabled)
        case True
        with assms \<open>active_sessions b (g_id g) = Some session\<close> ch VoiceChannel
        have "focus_mute_members (g_id g) edit ms
            (b\<lparr>focus_mode_active := (focus_mode_active b)(g_id g \<mapsto> True),
               session_joined_at := (session_joined_at b)(g_id g \<mapsto> seed_ledger now ms)\<rparr>)
            = (r, b', ev)"
          by (simp add: set_focus_mode_def Let_def)
        from focus_mute_members_quiet [OF this] show ?thesis by simp
      next
        case False
        with assms \<open>active_sessions b (g_id g) = Some session\<close> ch VoiceChannel
        have "unmute_members (g_id g) ''Pomodoro break started'' edit ms
            (accrue_users (g_id g)
               (ledger_keys (b\<lparr>focus_mode_active := (focus_mode_active b)(g_id g \<mapsto> False)\<rparr>) (g_id g))
               now (b\<lparr>focus_mode_active := (focus_mode_active b)(g_id g \<mapsto> False)\<rparr>))
            = (r, b', ev)"
          by (simp add: set_focus_mode_def Let_def)
        from unmute_members_quiet [OF this] show ?thesis
          by (simp add: accrue_users_sessions)
      qed
    next
      case (TextChannel cid)
      with assms \<open>active_sessions b (g_id g) = Some session\<close> ch show ?thesis
        by (simp add: set_focus_mode_def)
    next
      case (CategoryChannel cid name)
      with assms \<open>active_sessions b (g_id g) = Some session\<close> ch show ?thesis
        by (simp add: set_focus_mode_def)
    qed
  qed
qed

lemma focus_phase_completed:
  assumes "focus_phase g ph cycle cycles work_minutes b = (None, b', ev)"
  shows "filter is_send ev = [EvSend (FocusMessage cycle cycles work_minutes)]
     \<and> (\<exists>b1. active_sessions b1 = active_sessions b \<and> b' = ph_world ph b1)"
proof -
  from assms obtain b1 ev1 where
    sf: "set_focus_mode (g\<lparr>g_channels := ph_channels ph\<rparr>) True (ph_now ph) (ph_edit ph) b
           = (None, b1, ev1)"
    and ev: "ev = ev1 @ [EvSend (FocusMessage cycle cycles work_minutes)]
                 @ [EvSleep (work_minutes * 60)]"
    and b': "b' = ph_world ph b1"
    by (auto simp: focus_phase_def then_do_None send_def phase_sleep_def split: if_splits)
  from set_focus_mode_quiet [OF sf] ev b' show ?thesis by auto
qed

lemma break_phase_completed:
  assumes "break_phase g ph break_minutes b = (None, b', ev)"
  shows "filter is_send ev = [EvSend (BreakMessage break_minutes)]
     \<and> (\<exists>b1. active_sessions b1 = active_sessions b \<and> b' = ph_world ph b1)"
proof -
  from assms obtain b1 ev1 where
    sf: "set_focus_mode (g\<lparr>g_channels := ph_channels ph\<rparr>) False (ph_now ph) (ph_edit ph) b
           = (None, b1, ev1)"
    and ev: "ev = ev1 @ [EvSend (BreakMessage break_minutes)]
                 @ [EvSleep (break_minutes * 60)]"
    and b': "b' = ph_world ph b1"
    by (auto simp: break_phase_def then_do_None send_def phase_sleep_def split: if_splits)
  from set_focus_mode_quiet [OF sf] ev b' show ?thesis by auto
qed

lemma pomodoro_loop_completed:
  assumes "pomodoro_loop g env work_minutes break_minutes N [i..N] k b = (None, b', ev)"
    and "i \<le> N"
    and worlds: "\<And>j x. active_sessions (ph_world (env j) x) (g_id g) = active_sessions x (g_id g)"
  shows "filter is_send ev
           = concat (map (\<lambda>c. [EvSend (FocusMessage c N work_minutes),
                                EvSend (BreakMessage break_minutes)]) [i..N - 1])
             @ [EvSend (FocusMessage N N work_minutes)]
     \<and> active_sessions b' (g_id g) = active_sessions b (g_id g)"
  using assms(1,2)
proof (induction "nat (N - i)" arbitrary: i k b b' ev)
  case 0
  then have i: "i = N" by simp
  have list: "[N..N] = [N]" by (simp add: upto_rec1)
  from "0.prems"(1) obtain b1 ev1 where
    fp: "focus_phase g (env k) N N work_minutes b = (None, b1, ev1)"
    and "b' = b1" "ev = ev1"
    unfolding i list by (auto simp: then_do_None)
  with focus_phase_completed [OF fp] worlds show ?case
    by (auto simp: i)
next
  case (Suc n)
  then have less: "i < N" and n: "n = nat (N - (i + 1))" and le: "i + 1 \<le> N" by simp_all
  have list: "[i..N] = i # [i + 1..N]" using less by (simp add: upto_rec1)
  have cycles: "[i..N - 1] = i # [i + 1..N - 1]" using less by (simp add: upto_rec1)
  from Suc.prems(1) less obtain b1 ev1 b2 ev2 ev3 where
    fp: "focus_phase g (env k) i N work_minutes b = (None, b1, ev1)"
    and bp: "break_phase g (env (Suc k)) break_minutes b1 = (None, b2, ev2)"
    and rest: "pomodoro_loop g env work_minutes break_minutes N [i + 1..N] (k + 2) b2
                 = (None, b', ev3)"
    and ev: "ev = ev1 @ ev2 @ ev3"
    unfolding list by (auto simp: then_do_None)
  from Suc.hyps(1) [OF n rest le]
  have ih: "filter is_send ev3
      = concat (map (\<lambda>c. [EvSend (FocusMessage c N work_minutes),
                           EvSend (BreakMessage break_minutes)]) [i + 1..N - 1])
        @ [EvSend (FocusMessage N N work_minutes)]"
    and keep: "active_sessions b' (g_id g) = active_sessions b2 (g_id g)"
    by simp_all
  from focus_phase_completed [OF fp] break_phase_completed [OF bp] worlds
  have "filter is_send ev1 = [EvSend (FocusMessage i N work_minutes)]"
    "filter is_send ev2 = [EvSend (BreakMessage break_minutes)]"
    "active_sessions b2 (g_id g) = active_sessions b (g_id g)"
    by auto
  with ih keep show ?case
    by (simp add: ev cycles)
qed

lemma run_stop_unmute:
  "run_stop g reason now edit (StopUnmute session ended_at d ms) b = (r, b', ev) \<Longrightarrow>
     (r = Inr (Some d) \<or> (\<exists>e. r = Inl e)) \<and> filter is_send ev = []
     \<and> active_sessions b' = active_sessions b"
proof (induction ms arbitrary: r b' ev)
  case Nil
  then show ?case
    by (auto simp: Let_def split: option.splits)
next
  case (Cons m ms)
  obtain r1 ev1 where um: "unmute_member (g_id g) reason edit m b = (r1, ev1)"
    by (cases "unmute_member (g_id g) reason edit m b") auto
  show ?case
  proof (cases r1)
    case (Some e)
    with Cons.prems um unmute_member_no_send [OF um] show ?thesis by auto
  next
    case None
    obtain r2 b2 ev2 where
      rest: "run_stop g reason now edit (StopUnmute session ended_at d ms) b = (r2, b2, ev2)"
      by (cases "run_stop g reason now edit (StopUnmute session ended_at d ms) b") auto
    from Cons.IH [OF rest] Cons.prems um None rest unmute_member_no_send [OF um]
    show ?thesis by auto
  qed
qed

lemma run_stop_accrue:
  "run_stop g reason now edit (StopAccrue session ended_at d uids) b = (r, b', ev) \<Longrightarrow>
     (r = Inr (Some d) \<or> (\<exists>e. r = Inl e)) \<and> filter is_send ev = []
     \<and> active_sessions b' = active_sessions b"
proof (induction uids arbitrary: b r b' ev)
  case Nil
  have "\<exists>ms. stop_step g reason now edit (StopAccrue session ended_at d []) b
      = (StopUnmute session ended_at d ms, b, [])"
    by (simp split: option.splits channel.splits)
  then obtain ms where step: "stop_step g reason now edit (StopAccrue session ended_at d []) b
      = (StopUnmute session ended_at d ms, b, [])"
    by blast
  obtain r2 b2 ev2 where
    rest: "run_stop g reason now edit (StopUnmute session ended_at d ms) b = (r2, b2, ev2)"
    by (cases "run_stop g reason now edit (StopUnmute session ended_at d ms) b") auto
  from Nil step rest have "r = r2" "b' = b2" "ev = ev2"
    by (simp_all del: stop_step.simps)
  with run_stop_unmute [OF rest] show ?case by simp
next
  case (Cons uid uids)
  obtain r2 b2 ev2 where
    rest: "run_stop g reason now edit (StopAccrue session ended_at d uids)
             (accrue_user_time (g_id g) uid ended_at b) = (r2, b2, ev2)"
    by (cases "run_stop g reason now edit (StopAccrue session ended_at d uids)
             (accrue_user_time (g_id g) uid ended_at b)") auto
  from Cons.IH [OF rest] Cons.prems rest show ?case
    by (auto simp: accrue_user_time_frame)
qed

lemma stop_session_with_session:
  assumes "active_sessions b (g_id g) = Some session"
    and "stop_session g reason now edit b = (r, b', ev)"
  shows "(r = Inr (Some (int_total_seconds (dt_sub now (started_at session)))) \<or> (\<exists>e. r = Inl e))
     \<and> filter is_send ev = [] \<and> active_sessions b' (g_id g) = None"
proof -
  let ?b1 = "b\<lparr>active_sessions := (active_sessions b)(g_id g := None)\<rparr>"
  let ?d = "int_total_seconds (dt_sub now (started_at session))"
  have step: "stop_step g reason now edit StopEntry b
      = (StopAccrue session now ?d (ledger_keys ?b1 (g_id g)), ?b1, [])"
    using assms(1) by (simp add: Let_def)
  obtain r2 b2 ev2 where
    rest: "run_stop g reason now edit (StopAccrue session now ?d (ledger_keys ?b1 (g_id g))) ?b1
             = (r2, b2, ev2)"
    by (cases "run_stop g reason now edit (StopAccrue session now ?d (ledger_keys ?b1 (g_id g))) ?b1")
      auto
  from assms(2) step rest have "r = r2" "b' = b2" "ev = ev2"
    by (simp_all add: stop_session_def del: stop_step.simps)
  with run_stop_accrue [OF rest] show ?thesis by simp
qed

lemma filter_announcement_send:
  "filter is_focus_announcement ev = filter is_focus_announcement (filter is_send ev)"
  "filter is_break_announcement ev = filter is_break_announcement (filter is_send ev)"
proof -
  have "is_focus_announcement e \<Longrightarrow> is_send e" "is_break_announcement e \<Longrightarrow> is_send e" for e
    by (cases e; simp)+
  then show "filter is_focus_announcement ev = filter is_focus_announcement (filter is_send ev)"
    "filter is_break_announcement ev = filter is_break_announcement (filter is_send ev)"
    by (auto intro: filter_cong)
qed

lemma count_cycle_announcements:
  "length (filter is_focus_announcement
     (concat (map (\<lambda>c. [EvSend (FocusMessage c N w), EvSend (BreakMessage br)]) cs)
      @ [EvSend (FocusMessage N N w)])) = Suc (length cs)"
  "length (filter is_break_announcement
     (concat (map (\<lambda>c. [EvSend (FocusMessage c N w), EvSend (BreakMessage br)]) cs)
      @ [EvSend (FocusMessage N N w)])) = length cs"
  by (induction cs) simp_all

lemma run_pomodoro_cycles_clears_state:
  assumes "get_channel g text_channel_id = Some text_channel" "is_messageable text_channel"
  shows "pomodoro_states
           (fst (snd (run_pomodoro_cycles g text_channel_id work_minutes break_minutes cycles
                        env fin b))) (g_id g) = None"
  using assms
  by (simp add: run_pomodoro_cycles_def Let_def split: prod.splits option.splits)

text \<open>
  Claim C4. Take a run for \<open>cycles = N \<ge> 1\<close> whose text channel is messageable, that
  starts with the session active, during whose sleeps no other task unregisters the
  session, and that returns normally (it is not cancelled and nothing raises). Its log
  is the log of the loop, then the log of \<^verbatim>\<open>stop_session\<close> called with the reason
  "Pomodoro completed" on the state the loop leaves, then the announcement of the
  formatted duration. The announcements of the loop are focus 1, break, focus 2, break,
  and so on up to focus N, with no break after it: N focus announcements and N - 1 break
  announcements. \<^verbatim>\<open>stop_session\<close> announces nothing, and afterwards the community has
  neither a session nor a Pomodoro state.
\<close>

theorem run_pomodoro_cycles_announcements:
  assumes "get_channel g text_channel_id = Some text_channel"
    and "is_messageable text_channel"
    and "1 \<le> cycles"
    and "active_sessions b (g_id g) = Some session"
    and "\<forall>j x. active_sessions (ph_world (env j) x) (g_id g) = active_sessions x (g_id g)"
    and "fst (run_pomodoro_cycles g text_channel_id work_minutes break_minutes cycles env fin b)
           = None"
  shows "\<exists>b1 ev1 b2 ev2.
       pomodoro_loop g env work_minutes break_minutes cycles [1..cycles] 0 b = (None, b1, ev1)
     \<and> stop_session (g\<lparr>g_channels := ph_channels fin\<rparr>) ''Pomodoro completed''
           (ph_now fin) (ph_edit fin) b1
         = (Inr (Some (int_total_seconds (dt_sub (ph_now fin) (started_at session)))), b2, ev2)
     \<and> snd (snd (run_pomodoro_cycles g text_channel_id work_minutes break_minutes cycles
                    env fin b))
         = ev1 @ ev2
           @ [EvSend (FinishedMessage
                (fmt_duration (int_total_seconds (dt_sub (ph_now fin) (started_at session)))))]
     \<and> filter is_send ev1
         = concat (map (\<lambda>c. [EvSend (FocusMessage c cycles work_minutes),
                              EvSend (BreakMessage break_minutes)]) [1..cycles - 1])
           @ [EvSend (FocusMessage cycles cycles work_minutes)]
     \<and> length (filter is_focus_announcement ev1) = nat cycles
     \<and> length (filter is_break_announcement ev1) = nat (cycles - 1)
     \<and> filter is_send ev2 = []
     \<and> active_sessions
         (fst (snd (run_pomodoro_cycles g text_channel_id work_minutes break_minutes cycles
                      env fin b))) (g_id g) = None
     \<and> pomodoro_states
         (fst (snd (run_pomodoro_cycles g text_channel_id work_minutes break_minutes cycles
                      env fin b))) (g_id g) = None"
proof -
  let ?run = "run_pomodoro_cycles g text_channel_id work_minutes break_minutes cycles env fin b"
  let ?gf = "g\<lparr>g_channels := ph_channels fin\<rparr>"
  let ?d = "int_total_seconds (dt_sub (ph_now fin) (started_at session))"
  let ?tried = "then_do
      (pomodoro_loop g env work_minutes break_minutes cycles [1..cycles] 0 b)
      (stop_and_announce g fin ''Pomodoro completed'' FinishedMessage)"
  obtain rt bt evt where tried: "?tried = (rt, bt, evt)"
    by (cases ?tried) auto
  have rt: "rt = None"
  proof (cases rt)
    case None
    then show ?thesis .
  next
    case (Some e)
    with assms(1,2,6) tried show ?thesis
      by (auto simp: run_pomodoro_cycles_def Let_def split: prod.splits option.splits if_splits)
  qed
  with assms(1,2) tried
  have run: "?run = (None, bt\<lparr>pomodoro_states := (pomodoro_states bt)(g_id g := None)\<rparr>, evt)"
    by (simp add: run_pomodoro_cycles_def Let_def)
  from tried rt obtain b1 ev1 ev3 where
    loop: "pomodoro_loop g env work_minutes break_minutes cycles [1..cycles] 0 b = (None, b1, ev1)"
    and fin: "stop_and_announce g fin ''Pomodoro completed'' FinishedMessage b1 = (None, bt, ev3)"
    and evt: "evt = ev1 @ ev3"
    by (auto simp: then_do_None)
  from pomodoro_loop_completed [OF loop assms(3)] assms(5)
  have sends: "filter is_send ev1
      = concat (map (\<lambda>c. [EvSend (FocusMessage c cycles work_minutes),
                           EvSend (BreakMessage break_minutes)]) [1..cycles - 1])
        @ [EvSend (FocusMessage cycles cycles work_minutes)]"
    and keep: "active_sessions b1 (g_id g) = active_sessions b (g_id g)"
    by simp_all
  obtain rs b2 ev2 where
    stop: "stop_session ?gf ''Pomodoro completed'' (ph_now fin) (ph_edit fin) b1 = (rs, b2, ev2)"
    by (cases "stop_session ?gf ''Pomodoro completed'' (ph_now fin) (ph_edit fin) b1") auto
  have "active_sessions b1 (g_id ?gf) = Some session"
    using keep assms(4) by simp
  from stop_session_with_session [OF this stop]
  have rs: "rs = Inr (Some ?d) \<or> (\<exists>e. rs = Inl e)"
    and quiet: "filter is_send ev2 = []"
    and gone: "active_sessions b2 (g_id g) = None"
    by simp_all
  from fin stop rs have rs': "rs = Inr (Some ?d)"
    by (auto simp: stop_and_announce_def)
  with fin stop have bt: "bt = b2"
    and ev3: "ev3 = ev2 @ [EvSend (FinishedMessage (fmt_duration ?d))]"
    by (simp_all add: stop_and_announce_def)
  have len: "length [1..cycles - 1] = nat (cycles - 1)"
    by simp
  have "length (filter is_focus_announcement (filter is_send ev1)) = Suc (length [1..cycles - 1])"
    unfolding sends by (rule count_cycle_announcements(1))
  then have focus: "length (filter is_focus_announcement ev1) = nat cycles"
    using assms(3) filter_announcement_send(1) [of ev1] by (simp add: len)
  have "length (filter is_break_announcement (filter is_send ev1)) = length [1..cycles - 1]"
    unfolding sends by (rule count_cycle_announcements(2))
  then have breaks: "length (filter is_break_announcement ev1) = nat (cycles - 1)"
    using filter_announcement_send(2) [of ev1] by (simp add: len)
  show ?thesis
    using loop stop rs' sends focus breaks quiet gone
    by (simp add: run evt ev3 bt)
qed

theorem run_pomodoro_cycles_announcements_witness:
  "get_channel \<lparr>g_id = 7, g_channels = [TextChannel 9, VoiceChannel 5 []]\<rparr> 9
     = Some (TextChannel 9)
   \<and> is_messageable (TextChannel 9)
   \<and> (1 :: int) \<le> 2
   \<and> fst (run_pomodoro_cycles \<lparr>g_id = 7, g_channels = [TextChannel 9, VoiceChannel 5 []]\<rparr>
            9 25 5 2
            (\<lambda>k. \<lparr>ph_now = \<lparr>dt_local = 0, dt_offset = 0\<rparr>,
                   ph_channels = [TextChannel 9, VoiceChannel 5 []],
                   ph_edit = (\<lambda>uid mute. None), ph_send = None, ph_cancelled = False,
                   ph_world = (\<lambda>b. b)\<rparr>)
            \<lparr>ph_now = \<lparr>dt_local = 3300000000, dt_offset = 0\<rparr>,
             ph_channels = [TextChannel 9, VoiceChannel 5 []],
             ph_edit = (\<lambda>uid mute. None), ph_send = None, ph_cancelled = False,
             ph_world = (\<lambda>b. b)\<rparr>
            (initial_bot\<lparr>active_sessions :=
               [7 \<mapsto> \<lparr>guild_id = 7, voice_channel_id = 5,
                       started_at = \<lparr>dt_local = 0, dt_offset = 0\<rparr>,
                       enforce_mute_task = Some (EnforceMuteTask 7)\<rparr>]\<rparr>))
       = None
   \<and> (\<exists>ev1 ev2.
         snd (snd (run_pomodoro_cycles
            \<lparr>g_id = 7, g_channels = [TextChannel 9, VoiceChannel 5 []]\<rparr> 9 25 5 2
            (\<lambda>k. \<lparr>ph_now = \<lparr>dt_local = 0, dt_offset = 0\<rparr>,
                   ph_channels = [TextChannel 9, VoiceChannel 5 []],
                   ph_edit = (\<lambda>uid mute. None), ph_send = None, ph_cancelled = False,
                   ph_world = (\<lambda>b. b)\<rparr>)
            \<lparr>ph_now = \<lparr>dt_local = 3300000000, dt_offset = 0\<rparr>,
             ph_channels = [TextChannel 9, VoiceChannel 5 []],
             ph_edit = (\<lambda>uid mute. None), ph_send = None, ph_cancelled = False,
             ph_world = (\<lambda>b. b)\<rparr>
            (initial_bot\<lparr>active_sessions :=
               [7 \<mapsto> \<lparr>guild_id = 7, voice_channel_id = 5,
                       started_at = \<lparr>dt_local = 0, dt_offset = 0\<rparr>,
                       enforce_mute_task = Some (EnforceMuteTask 7)\<rparr>]\<rparr>)))
           = ev1 @ ev2 @ [EvSend (FinishedMessage (0, 55, 0))]
         \<and> filter is_send ev1
             = [EvSend (FocusMessage 1 2 25), EvSend (BreakMessage 5),
                EvSend (FocusMessage 2 2 25)]
         \<and> length (filter is_focus_announcement ev1) = 2
         \<and> length (filter is_break_announcement ev1) = 1
         \<and> filter is_send ev2 = [])"
proof -
  let ?g = "\<lparr>g_id = 7, g_channels = [TextChannel 9, VoiceChannel 5 []]\<rparr>"
  let ?env = "\<lambda>k :: nat. \<lparr>ph_now = \<lparr>dt_local = 0, dt_offset = 0\<rparr>,
      ph_channels = [TextChannel 9, VoiceChannel 5 []],
      ph_edit = (\<lambda>uid mute. None), ph_send = None, ph_cancelled = False,
      ph_world = (\<lambda>b. b)\<rparr>"
  let ?fin = "\<lparr>ph_now = \<lparr>dt_local = 3300000000, dt_offset = 0\<rparr>,
      ph_channels = [TextChannel 9, VoiceChannel 5 []],
      ph_edit = (\<lambda>uid mute. None), ph_send = None, ph_cancelled = False,
      ph_world = (\<lambda>b. b)\<rparr>"
  let ?s = "\<lparr>guild_id = 7, voice_channel_id = 5,
      started_at = \<lparr>dt_local = 0, dt_offset = 0\<rparr>,
      enforce_mute_task = Some (EnforceMuteTask 7)\<rparr>"
  let ?b = "initial_bot\<lparr>active_sessions := [7 \<mapsto> ?s]\<rparr>"
  have two: "[1..2] = [1, 2 :: int]" "[1..2 - 1] = [1 :: int]"
    by (simp_all add: upto_rec1)
  have h1: "get_channel ?g 9 = Some (TextChannel 9)" by (simp add: get_channel_def)
  have h2: "is_messageable (TextChannel 9)" by simp
  have h3: "(1 :: int) \<le> 2" by simp
  have h4: "active_sessions ?b (g_id ?g) = Some ?s" by simp
  have h5: "\<forall>j x. active_sessions (ph_world (?env j) x) (g_id ?g) = active_sessions x (g_id ?g)"
    by simp
  have h6: "fst (run_pomodoro_cycles ?g 9 25 5 2 ?env ?fin ?b) = None"
    by (simp add: run_pomodoro_cycles_def get_channel_def two then_do_def focus_phase_def
        break_phase_def set_focus_mode_def send_def phase_sleep_def stop_and_announce_def
        stop_session_def seed_ledger_def ledger_keys_def accrue_users_def Let_def
        initial_bot_def)
  have d: "fmt_duration (int_total_seconds (dt_sub (ph_now ?fin) (started_at ?s))) = (0, 55, 0)"
    by (simp add: fmt_duration_def int_total_seconds_def dt_sub_def utc_instant_def
        us_per_second_def)
  from run_pomodoro_cycles_announcements [OF h1 h2 h3 h4 h5 h6]
  obtain ev1 ev2 where
    "snd (snd (run_pomodoro_cycles ?g 9 25 5 2 ?env ?fin ?b))
       = ev1 @ ev2 @ [EvSend (FinishedMessage
           (fmt_duration (int_total_seconds (dt_sub (ph_now ?fin) (started_at ?s)))))]"
    "filter is_send ev1
       = concat (map (\<lambda>c. [EvSend (FocusMessage c 2 25), EvSend (BreakMessage 5)]) [1..2 - 1])
         @ [EvSend (FocusMessage 2 2 25)]"
    "length (filter is_focus_announcement ev1) = nat 2"
    "length (filter is_break_announcement ev1) = nat (2 - 1)"
    "filter is_send ev2 = []"
    by blast
  then have "snd (snd (run_pomodoro_cycles ?g 9 25 5 2 ?env ?fin ?b))
       = ev1 @ ev2 @ [EvSend (FinishedMessage (0, 55, 0))]
     \<and> filter is_send ev1
         = [EvSend (FocusMessage 1 2 25), EvSend (BreakMessage 5), EvSend (FocusMessage 2 2 25)]
     \<and> length (filter is_focus_announcement ev1) = 2
     \<and> length (filter is_break_announcement ev1) = 1
     \<and> filter is_send ev2 = []"
    unfolding d two by simp
  then show ?thesis using h1 h2 h3 h6 by blast
qed

text \<open>
  Claim C8, at a run whose text channel is not in the guild's channel cache (the command
  was given in a thread, say). \<^verbatim>\<open>pomodoro_start\<close> registers the Pomodoro state and
  answers that the Pomodoro started; \<^verbatim>\<open>run_pomodoro_cycles\<close> returns at its first
  test, which stands before the \<^verbatim>\<open>try\<close>, so the \<^verbatim>\<open>finally\<close> does not run and
  the entry stays; the next \<^verbatim>\<open>pomodoro_start\<close> for the community is refused.
\<close>

theorem run_pomodoro_cycles_early_return_keeps_state:
  "fst (pomodoro_start (Some \<lparr>g_id = 7, g_channels = [TextChannel 9, VoiceChannel 5 []]\<rparr>)
          (Some 99) 25 5 4 \<lparr>dt_local = 0, dt_offset = 0\<rparr>
          \<lparr>new_category_id = 20, new_voice_channel_id = 21\<rparr> initial_bot)
     = PomodoroStarted
   \<and> get_channel \<lparr>g_id = 7, g_channels = [TextChannel 9, VoiceChannel 5 []]\<rparr> 99 = None
   \<and> run_pomodoro_cycles \<lparr>g_id = 7, g_channels = [TextChannel 9, VoiceChannel 5 []]\<rparr>
        99 25 5 4
        (\<lambda>k. \<lparr>ph_now = \<lparr>dt_local = 0, dt_offset = 0\<rparr>,
               ph_channels = [TextChannel 9, VoiceChannel 5 []],
               ph_edit = (\<lambda>uid mute. None), ph_send = None, ph_cancelled = False,
               ph_world = (\<lambda>b. b)\<rparr>)
        \<lparr>ph_now = \<lparr>dt_local = 0, dt_offset = 0\<rparr>,
         ph_channels = [TextChannel 9, VoiceChannel 5 []],
         ph_edit = (\<lambda>uid mute. None), ph_send = None, ph_cancelled = False,
         ph_world = (\<lambda>b. b)\<rparr>
        (fst (snd (pomodoro_start
           (Some \<lparr>g_id = 7, g_channels = [TextChannel 9, VoiceChannel 5 []]\<rparr>)
           (Some 99) 25 5 4 \<lparr>dt_local = 0, dt_offset = 0\<rparr>
           \<lparr>new_category_id = 20, new_voice_channel_id = 21\<rparr> initial_bot)))
     = (None,
        fst (snd (pomodoro_start
           (Some \<lparr>g_id = 7, g_channels = [TextChannel 9, VoiceChannel 5 []]\<rparr>)
           (Some 99) 25 5 4 \<lparr>dt_local = 0, dt_offset = 0\<rparr>
           \<lparr>new_category_id = 20, new_voice_channel_id = 21\<rparr> initial_bot)),
        [])
   \<and> pomodoro_states
       (fst (snd (pomodoro_start
          (Some \<lparr>g_id = 7, g_channels = [TextChannel 9, VoiceChannel 5 []]\<rparr>)
          (Some 99) 25 5 4 \<lparr>dt_local = 0, dt_offset = 0\<rparr>
          \<lparr>new_category_id = 20, new_voice_channel_id = 21\<rparr> initial_bot))) 7
     = Some \<lparr>ps_task = PomodoroTask 7, ps_text_channel_id = 99, ps_work_minutes = 25,
             ps_break_minutes = 5, ps_cycles = 4\<rparr>
   \<and> fst (pomodoro_start (Some \<lparr>g_id = 7, g_channels = [TextChannel 9, VoiceChannel 5 []]\<rparr>)
          (Some 9) 25 5 4 \<lparr>dt_local = 600000000, dt_offset = 0\<rparr>
          \<lparr>new_category_id = 20, new_voice_channel_id = 21\<rparr>
          (fst (snd (pomodoro_start
             (Some \<lparr>g_id = 7, g_channels = [TextChannel 9, VoiceChannel 5 []]\<rparr>)
             (Some 99) 25 5 4 \<lparr>dt_local = 0, dt_offset = 0\<rparr>
             \<lparr>new_category_id = 20, new_voice_channel_id = 21\<rparr> initial_bot))))
     = AlreadyRunning"
proof -
  let ?g = "\<lparr>g_id = 7, g_channels = [TextChannel 9, VoiceChannel 5 []]\<rparr>"
  let ?start = "pomodoro_start (Some ?g) (Some 99) 25 5 4 \<lparr>dt_local = 0, dt_offset = 0\<rparr>
      \<lparr>new_category_id = 20, new_voice_channel_id = 21\<rparr> initial_bot"
  have started: "fst ?start = PomodoroStarted"
    and state: "pomodoro_states (fst (snd ?start)) 7
      = Some \<lparr>ps_task = PomodoroTask 7, ps_text_channel_id = 99, ps_work_minutes = 25,
              ps_break_minutes = 5, ps_cycles = 4\<rparr>"
    by (simp_all add: pomodoro_start_def start_session_def ensure_study_channel_def
        get_guild_config_def get_channel_if_def create_session_record_def
        upsert_guild_config_def Let_def initial_bot_def empty_store_def)
  have thread: "get_channel ?g 99 = None"
    by (simp add: get_channel_def)
  have early: "run_pomodoro_cycles ?g 99 25 5 4 env fin b = (None, b, [])" for env fin b
    using thread by (simp add: run_pomodoro_cycles_def)
  have refused: "fst (pomodoro_start (Some ?g) (Some 9) 25 5 4 now prov b) = AlreadyRunning"
    if "pomodoro_states b 7 \<noteq> None" for now prov b
    using that by (simp add: pomodoro_start_def)
  from state have "pomodoro_states (fst (snd ?start)) 7 \<noteq> None" by simp
  from refused [OF this] started state thread early show ?thesis by simp
qed


end
